theory Spec2Isabelle
  imports Main
begin

section \<open>JavaScript strings\<close>

text \<open>
  A JavaScript string is a sequence of UTF-16 code units. A code unit is given by its
  number, so that the Cyrillic reply templates of the bot can be written down exactly;
  \<open>js\<close> turns an ASCII literal into such a sequence.
\<close>

type_synonym jsstring = "nat list"

definition js :: "string \<Rightarrow> jsstring" where
  "js s = map of_char s"

text \<open>
  The code units that \<open>String.prototype.trim\<close> strips and that the regular expression
  \<open>/\s/\<close> matches: the ECMAScript WhiteSpace and LineTerminator productions.
\<close>

definition isWhiteSpace :: "nat \<Rightarrow> bool" where
  "isWhiteSpace c \<longleftrightarrow>
     c = 0x09 \<or> c = 0x0A \<or> c = 0x0B \<or> c = 0x0C \<or> c = 0x0D \<or> c = 0x20 \<or> c = 0xA0 \<or>
     c = 0x1680 \<or> (0x2000 \<le> c \<and> c \<le> 0x200A) \<or> c = 0x2028 \<or> c = 0x2029 \<or>
     c = 0x202F \<or> c = 0x205F \<or> c = 0x3000 \<or> c = 0xFEFF"

definition trimStart :: "jsstring \<Rightarrow> jsstring" where
  "trimStart s = dropWhile isWhiteSpace s"

definition trimEnd :: "jsstring \<Rightarrow> jsstring" where
  "trimEnd s = rev (dropWhile isWhiteSpace (rev s))"

definition trim :: "jsstring \<Rightarrow> jsstring" where
  "trim s = trimEnd (trimStart s)"

text \<open>
  \<open>String.prototype.toLowerCase\<close> is a function of the JavaScript runtime: it follows the
  Unicode case mappings, is not length preserving (U+0130 becomes two code units) and
  depends on the context for the Greek capital sigma. The program is therefore modelled
  for an arbitrary lower-casing function: every definition that lower-cases takes it as
  its first argument \<open>lc\<close>.

  What the properties below use of it is \<open>lowerCaseLike\<close>: on a text that begins with
  ASCII code units, the result begins with these units, the letters \<open>A\<close> to \<open>Z\<close> replaced
  by \<open>a\<close> to \<open>z\<close>; and the rest of the result is empty exactly when the rest of the text
  is. \<open>toLowerCase\<close> has this property: the mapping of an ASCII character is fixed (the
  only context-dependent rule of the locale-insensitive mappings is the one for U+03A3),
  and every character is mapped to at least one code unit.
\<close>

type_synonym lowerCase = "jsstring \<Rightarrow> jsstring"

definition isAscii :: "nat \<Rightarrow> bool" where
  "isAscii c \<longleftrightarrow> c < 0x80"

definition asciiLowerUnit :: "nat \<Rightarrow> nat" where
  "asciiLowerUnit c = (if 0x41 \<le> c \<and> c \<le> 0x5A then c + 0x20 else c)"

definition lowerCaseLike :: "lowerCase \<Rightarrow> bool" where
  "lowerCaseLike lc \<longleftrightarrow>
     (\<forall>a s. list_all isAscii a \<longrightarrow>
        (\<exists>s'. lc (a @ s) = map asciiLowerUnit a @ s' \<and> (s' = [] \<longleftrightarrow> s = [])))"

text \<open>
  The lower-casing function of the sample conversations, which are written in ASCII:
  it changes the letters \<open>A\<close> to \<open>Z\<close> only.
\<close>

definition asciiLowerCase :: lowerCase where
  "asciiLowerCase s = map asciiLowerUnit s"

definition startsWith :: "jsstring \<Rightarrow> jsstring \<Rightarrow> bool" where
  "startsWith s p \<longleftrightarrow> take (length p) s = p"

definition endsWith :: "jsstring \<Rightarrow> jsstring \<Rightarrow> bool" where
  "endsWith s p \<longleftrightarrow> length p \<le> length s \<and> drop (length s - length p) s = p"

text \<open>\<open>s.indexOf(c)\<close> for a single code unit \<open>c\<close>: the first position, or \<open>-1\<close>.\<close>

definition indexOf :: "jsstring \<Rightarrow> nat \<Rightarrow> int" where
  "indexOf s c = (if c \<in> set s then int (length (takeWhile (\<lambda>x. x \<noteq> c) s)) else - 1)"

text \<open>
  \<open>s.substring(a, b)\<close> and \<open>s.substring(a)\<close>. The source only calls them with
  \<open>0 \<le> a \<le> b\<close>; positions beyond the end are clamped, as in JavaScript.
\<close>

definition substring :: "jsstring \<Rightarrow> nat \<Rightarrow> nat \<Rightarrow> jsstring" where
  "substring s a b = take (b - a) (drop a s)"

definition substringFrom :: "jsstring \<Rightarrow> nat \<Rightarrow> jsstring" where
  "substringFrom s a = drop a s"

text \<open>\<open>s.charAt(i)\<close>: a string of one code unit, or the empty string out of range.\<close>

definition charAt :: "jsstring \<Rightarrow> nat \<Rightarrow> jsstring" where
  "charAt s i = (if i < length s then [s ! i] else [])"

text \<open>\<open>s.split('\n')\<close>: never empty; the empty string splits into one empty line.\<close>

fun splitOn :: "nat \<Rightarrow> jsstring \<Rightarrow> jsstring list" where
  "splitOn c [] = [[]]"
| "splitOn c (x # xs) =
     (if x = c then [] # splitOn c xs
      else (case splitOn c xs of [] \<Rightarrow> [[x]] | l # ls \<Rightarrow> (x # l) # ls))"

text \<open>\<open>parts.join(sep)\<close>.\<close>

fun joinWith :: "jsstring \<Rightarrow> jsstring list \<Rightarrow> jsstring" where
  "joinWith sep [] = []"
| "joinWith sep [x] = x"
| "joinWith sep (x # y # ys) = x @ sep @ joinWith sep (y # ys)"

text \<open>The decimal rendering of a number inside a template literal.\<close>

function numberToString :: "nat \<Rightarrow> jsstring" where
  "numberToString n =
     (if n < 10 then [0x30 + n] else numberToString (n div 10) @ [0x30 + n mod 10])"
  by pat_completeness auto
termination
  by (relation "measure (\<lambda>n. n)") auto

declare numberToString.simps [simp del]

section \<open>Data model\<close>

record KeyValuePair =
  key :: jsstring
  val :: jsstring

record GlossaryValue =
  gvalue :: jsstring
  createdAt :: jsstring
  createdBy :: jsstring

record GlossaryEntry =
  entry_values :: "GlossaryValue list"

datatype Reason = duplicate | error

record AddValueResult =
  added :: bool
  reason :: "Reason option"

datatype CommandType = ADD | MULTI_ADD | REMOVE | DETAILS | HELP

definition COMMAND_PREFIX :: jsstring where
  "COMMAND_PREFIX = js ''!''"

definition ROOM_TYPE_DIRECT :: jsstring where
  "ROOM_TYPE_DIRECT = js ''d''"

fun COMMANDS :: "CommandType \<Rightarrow> jsstring" where
  "COMMANDS ADD = js ''add''"
| "COMMANDS MULTI_ADD = js ''multi-add''"
| "COMMANDS REMOVE = js ''remove''"
| "COMMANDS DETAILS = js ''details''"
| "COMMANDS HELP = js ''help''"

declare COMMANDS.simps [simp del]

section \<open>Key normalizer\<close>

definition normalizeKey :: "lowerCase \<Rightarrow> jsstring \<Rightarrow> jsstring" where
  "normalizeKey lc k = lc (trim k)"

definition isValidKey :: "lowerCase \<Rightarrow> jsstring \<Rightarrow> bool" where
  "isValidKey lc k \<longleftrightarrow> length (normalizeKey lc k) > 0"

definition normalizeValue :: "lowerCase \<Rightarrow> jsstring \<Rightarrow> jsstring" where
  "normalizeValue lc v = lc (trim v)"

definition isValidValue :: "lowerCase \<Rightarrow> jsstring \<Rightarrow> bool" where
  "isValidValue lc v \<longleftrightarrow> length (normalizeValue lc v) > 0"

section \<open>Command parser\<close>

text \<open>
  \<open>parseKeyValue\<close>: the text is cut at the first colon; \<open>colonIndex <= 0\<close> rejects
  both a missing colon (\<open>-1\<close>) and a colon in first position.
\<close>

definition parseKeyValue :: "lowerCase \<Rightarrow> jsstring \<Rightarrow> KeyValuePair option" where
  "parseKeyValue lc text =
     (if text = [] then None
      else
        let colonIndex = indexOf text 0x3A in
        if colonIndex \<le> 0 then None
        else
          let k = trim (substring text 0 (nat colonIndex));
              v = trim (substringFrom text (nat colonIndex + 1))
          in if \<not> isValidKey lc k \<or> \<not> isValidValue lc v then None
             else Some \<lparr>key = k, val = v\<rparr>)"

text \<open>
  The earlier revision of the file in the repository has \<open>parseKeyValue\<close> without the
  guards: only a missing colon (\<open>-1\<close>) is rejected before the cut, and the two sides are
  tested for emptiness after trimming.
\<close>

definition parseKeyValue_part_000 :: "jsstring \<Rightarrow> KeyValuePair option" where
  "parseKeyValue_part_000 text =
     (let colonIndex = indexOf text 0x3A in
      if colonIndex = - 1 then None
      else
        let k = trim (substring text 0 (nat colonIndex));
            v = trim (substringFrom text (nat colonIndex + 1))
        in if k = [] \<or> v = [] then None
           else Some \<lparr>key = k, val = v\<rparr>)"

definition extractCommandPayload :: "lowerCase \<Rightarrow> jsstring \<Rightarrow> jsstring \<Rightarrow> jsstring" where
  "extractCommandPayload lc text command =
     (let trimmed = trim text;
          prefix = COMMAND_PREFIX @ command
      in if \<not> startsWith (lc trimmed) prefix then []
         else trim (substringFrom trimmed (length prefix)))"

definition isCommand :: "jsstring \<Rightarrow> bool" where
  "isCommand text = startsWith (trim text) COMMAND_PREFIX"

definition matchesCommand :: "jsstring \<Rightarrow> jsstring \<Rightarrow> bool" where
  "matchesCommand text command =
     (if \<not> isCommand text then False
      else
        let trimmed = trim text;
            prefix = COMMAND_PREFIX @ command
        in if \<not> startsWith trimmed prefix then False
           else
             let nextChar = charAt trimmed (length prefix)
             in nextChar = [] \<or> list_ex isWhiteSpace nextChar)"

definition getCommandType :: "jsstring \<Rightarrow> CommandType option" where
  "getCommandType text =
     (if matchesCommand text (COMMANDS ADD) then Some ADD
      else if matchesCommand text (COMMANDS MULTI_ADD) then Some MULTI_ADD
      else if matchesCommand text (COMMANDS REMOVE) then Some REMOVE
      else if matchesCommand text (COMMANDS DETAILS) then Some DETAILS
      else if matchesCommand text (COMMANDS HELP) then Some HELP
      else None)"

text \<open>
  \<open>parseMultiAdd\<close>: the lines are trimmed, blank ones dropped, one trailing semicolon is
  cut off, and every line that parses contributes a pair. The loop pushes onto \<open>pairs\<close>.
\<close>

definition cleanLine :: "jsstring \<Rightarrow> jsstring" where
  "cleanLine line = (if endsWith line (js '';'') then trim (butlast line) else line)"

fun parseMultiAdd_loop :: "lowerCase \<Rightarrow> jsstring list \<Rightarrow> KeyValuePair list \<Rightarrow> KeyValuePair list" where
  "parseMultiAdd_loop lc [] pairs = pairs"
| "parseMultiAdd_loop lc (line # lines) pairs =
     (case parseKeyValue lc (cleanLine line) of
        None \<Rightarrow> parseMultiAdd_loop lc lines pairs
      | Some pair \<Rightarrow> parseMultiAdd_loop lc lines (pairs @ [pair]))"

definition parseMultiAdd :: "lowerCase \<Rightarrow> jsstring \<Rightarrow> KeyValuePair list" where
  "parseMultiAdd lc text =
     (let lines = filter (\<lambda>line. length line > 0) (map trim (splitOn 0x0A text))
      in parseMultiAdd_loop lc lines [])"

section \<open>Reply templates\<close>

text \<open>
  The constant table \<open>MESSAGES\<close>, code unit by code unit; the replies are in Russian,
  a gloss in English is given with each.
\<close>

text \<open>The reply to a malformed \<open>!add\<close>: "wrong command format, use \<open>!add <key>:<value>\<close>".\<close>

definition INVALID_ADD_FORMAT :: jsstring where
  "INVALID_ADD_FORMAT =
     [0x274C] @ js '' '' @ [0x41D, 0x435, 0x432, 0x435, 0x440, 0x43D, 0x44B, 0x439] @ js '' ''
     @ [0x444, 0x43E, 0x440, 0x43C, 0x430, 0x442] @ js '' ''
     @ [0x43A, 0x43E, 0x43C, 0x430, 0x43D, 0x434, 0x44B] @ js ''. ''
     @ [0x418, 0x441, 0x43F, 0x43E, 0x43B, 0x44C, 0x437, 0x443, 0x439, 0x442, 0x435] @ js '': ''
     @ [0x60] @ js ''!add <'' @ [0x43A, 0x43B, 0x44E, 0x447] @ js ''>:<''
     @ [0x437, 0x43D, 0x430, 0x447, 0x435, 0x43D, 0x438, 0x435] @ js ''>'' @ [0x60]"

text \<open>The reply to a \<open>!multi-add\<close> without a single well-formed line.\<close>

definition INVALID_MULTI_ADD_FORMAT :: jsstring where
  "INVALID_MULTI_ADD_FORMAT =
     [0x274C] @ js '' '' @ [0x41D, 0x435, 0x432, 0x435, 0x440, 0x43D, 0x44B, 0x439] @ js '' ''
     @ [0x444, 0x43E, 0x440, 0x43C, 0x430, 0x442] @ js '' ''
     @ [0x43A, 0x43E, 0x43C, 0x430, 0x43D, 0x434, 0x44B] @ js ''. ''
     @ [0x418, 0x441, 0x43F, 0x43E, 0x43B, 0x44C, 0x437, 0x443, 0x439, 0x442, 0x435] @ js '':''
     @ [0xA, 0x60] @ js ''!multi-add'' @ [0xA] @ js ''<'' @ [0x43A, 0x43B, 0x44E, 0x447]
     @ js ''1>:<'' @ [0x437, 0x43D, 0x430, 0x447, 0x435, 0x43D, 0x438, 0x435] @ js ''1>;''
     @ [0xA] @ js ''<'' @ [0x43A, 0x43B, 0x44E, 0x447] @ js ''2>:<''
     @ [0x437, 0x43D, 0x430, 0x447, 0x435, 0x43D, 0x438, 0x435] @ js ''2>;'' @ [0x60]"

text \<open>The reply to a \<open>!remove\<close> without a key.\<close>

definition INVALID_REMOVE_FORMAT :: jsstring where
  "INVALID_REMOVE_FORMAT =
     [0x274C] @ js '' '' @ [0x41D, 0x435, 0x432, 0x435, 0x440, 0x43D, 0x44B, 0x439] @ js '' ''
     @ [0x444, 0x43E, 0x440, 0x43C, 0x430, 0x442] @ js '' ''
     @ [0x43A, 0x43E, 0x43C, 0x430, 0x43D, 0x434, 0x44B] @ js ''. ''
     @ [0x418, 0x441, 0x43F, 0x43E, 0x43B, 0x44C, 0x437, 0x443, 0x439, 0x442, 0x435] @ js '':''
     @ [0xA, 0x60] @ js ''!remove <'' @ [0x43A, 0x43B, 0x44E, 0x447] @ js ''>'' @ [0x60]
     @ js '' - '' @ [0x443, 0x434, 0x430, 0x43B, 0x438, 0x442, 0x44C] @ js '' ''
     @ [0x432, 0x435, 0x441, 0x44C] @ js '' '' @ [0x43A, 0x43B, 0x44E, 0x447, 0xA, 0x60]
     @ js ''!remove <'' @ [0x43A, 0x43B, 0x44E, 0x447] @ js ''>:<''
     @ [0x437, 0x43D, 0x430, 0x447, 0x435, 0x43D, 0x438, 0x435] @ js ''>'' @ [0x60] @ js '' - ''
     @ [0x443, 0x434, 0x430, 0x43B, 0x438, 0x442, 0x44C] @ js '' ''
     @ [0x43A, 0x43E, 0x43D, 0x43A, 0x440, 0x435, 0x442, 0x43D, 0x43E, 0x435] @ js '' ''
     @ [0x437, 0x43D, 0x430, 0x447, 0x435, 0x43D, 0x438, 0x435]"

text \<open>The reply to a malformed \<open>!details\<close>.\<close>

definition INVALID_DETAILS_FORMAT :: jsstring where
  "INVALID_DETAILS_FORMAT =
     [0x274C] @ js '' '' @ [0x41D, 0x435, 0x432, 0x435, 0x440, 0x43D, 0x44B, 0x439] @ js '' ''
     @ [0x444, 0x43E, 0x440, 0x43C, 0x430, 0x442] @ js '' ''
     @ [0x43A, 0x43E, 0x43C, 0x430, 0x43D, 0x434, 0x44B] @ js ''. ''
     @ [0x418, 0x441, 0x43F, 0x43E, 0x43B, 0x44C, 0x437, 0x443, 0x439, 0x442, 0x435] @ js '': ''
     @ [0x60] @ js ''!details <'' @ [0x43A, 0x43B, 0x44E, 0x447] @ js ''>:<''
     @ [0x437, 0x43D, 0x430, 0x447, 0x435, 0x43D, 0x438, 0x435] @ js ''>'' @ [0x60]"

text \<open>"The key must not be empty."\<close>

definition INVALID_SEARCH_KEY :: jsstring where
  "INVALID_SEARCH_KEY =
     [0x274C] @ js '' '' @ [0x41A, 0x43B, 0x44E, 0x447] @ js '' '' @ [0x43D, 0x435] @ js '' ''
     @ [0x434, 0x43E, 0x43B, 0x436, 0x435, 0x43D] @ js '' '' @ [0x431, 0x44B, 0x442, 0x44C]
     @ js '' '' @ [0x43F, 0x443, 0x441, 0x442, 0x44B, 0x43C] @ js ''.''"

text \<open>"The value was added for key k", a line break, and the value.\<close>

definition VALUE_ADDED :: "jsstring \<Rightarrow> jsstring \<Rightarrow> jsstring" where
  "VALUE_ADDED k v =
     [0x2705] @ js '' '' @ [0x417, 0x43D, 0x430, 0x447, 0x435, 0x43D, 0x438, 0x435] @ js '' ''
     @ [0x443, 0x441, 0x43F, 0x435, 0x448, 0x43D, 0x43E] @ js '' ''
     @ [0x434, 0x43E, 0x431, 0x430, 0x432, 0x43B, 0x435, 0x43D, 0x43E] @ js '' ''
     @ [0x434, 0x43B, 0x44F] @ js '' '' @ [0x43A, 0x43B, 0x44E, 0x447, 0x430] @ js '' '' @ [0x22]
     @ js ''*''
     @ k @
     js ''*'' @ [0x22] @ js '':'' @ [0xA]
     @ v"

text \<open>"Such a value already exists for key k."\<close>

definition DUPLICATE_VALUE :: "jsstring \<Rightarrow> jsstring" where
  "DUPLICATE_VALUE k =
     [0x274C] @ js '' '' @ [0x422, 0x430, 0x43A, 0x43E, 0x435] @ js '' ''
     @ [0x437, 0x43D, 0x430, 0x447, 0x435, 0x43D, 0x438, 0x435] @ js '' ''
     @ [0x443, 0x436, 0x435] @ js '' ''
     @ [0x441, 0x443, 0x449, 0x435, 0x441, 0x442, 0x432, 0x443, 0x435, 0x442] @ js '' ''
     @ [0x434, 0x43B, 0x44F] @ js '' '' @ [0x43A, 0x43B, 0x44E, 0x447, 0x430] @ js '' '' @ [0x22]
     @ js ''*''
     @ k @
     js ''*'' @ [0x22] @ js ''.''"

text \<open>"An error occurred while saving."\<close>

definition SAVE_ERROR :: jsstring where
  "SAVE_ERROR =
     [0x274C] @ js '' '' @ [0x41F, 0x440, 0x43E, 0x438, 0x437, 0x43E, 0x448, 0x43B, 0x430]
     @ js '' '' @ [0x43E, 0x448, 0x438, 0x431, 0x43A, 0x430] @ js '' '' @ [0x43F, 0x440, 0x438]
     @ js '' '' @ [0x441, 0x43E, 0x445, 0x440, 0x430, 0x43D, 0x435, 0x43D, 0x438, 0x438]
     @ js ''.''"

text \<open>"Value v was removed for key k."\<close>

definition VALUE_REMOVED :: "jsstring \<Rightarrow> jsstring \<Rightarrow> jsstring" where
  "VALUE_REMOVED k v =
     [0x2705] @ js '' '' @ [0x417, 0x43D, 0x430, 0x447, 0x435, 0x43D, 0x438, 0x435] @ js '' ''
     @ [0x22] @ js ''*''
     @ v @
     js ''*'' @ [0x22] @ js '' '' @ [0x443, 0x441, 0x43F, 0x435, 0x448, 0x43D, 0x43E] @ js '' ''
     @ [0x443, 0x434, 0x430, 0x43B, 0x435, 0x43D, 0x43E] @ js '' '' @ [0x434, 0x43B, 0x44F]
     @ js '' '' @ [0x43A, 0x43B, 0x44E, 0x447, 0x430] @ js '' '' @ [0x22] @ js ''*''
     @ k @
     js ''*'' @ [0x22]"

text \<open>"Value v was not found for key k."\<close>

definition VALUE_NOT_FOUND :: "jsstring \<Rightarrow> jsstring \<Rightarrow> jsstring" where
  "VALUE_NOT_FOUND k v =
     [0x274C] @ js '' '' @ [0x417, 0x43D, 0x430, 0x447, 0x435, 0x43D, 0x438, 0x435] @ js '' ''
     @ [0x22] @ js ''*''
     @ v @
     js ''*'' @ [0x22] @ js '' '' @ [0x43D, 0x435] @ js '' ''
     @ [0x43D, 0x430, 0x439, 0x434, 0x435, 0x43D, 0x43E] @ js '' '' @ [0x434, 0x43B, 0x44F]
     @ js '' '' @ [0x43A, 0x43B, 0x44E, 0x447, 0x430] @ js '' '' @ [0x22] @ js ''*''
     @ k @
     js ''*'' @ [0x22]"

text \<open>"Key k and all its values were removed."\<close>

definition KEY_REMOVED :: "jsstring \<Rightarrow> jsstring" where
  "KEY_REMOVED k =
     [0x2705] @ js '' '' @ [0x41A, 0x43B, 0x44E, 0x447] @ js '' '' @ [0x22] @ js ''*''
     @ k @
     js ''*'' @ [0x22] @ js '' '' @ [0x438] @ js '' '' @ [0x432, 0x441, 0x435] @ js '' ''
     @ [0x435, 0x433, 0x43E] @ js '' ''
     @ [0x437, 0x43D, 0x430, 0x447, 0x435, 0x43D, 0x438, 0x44F] @ js '' ''
     @ [0x443, 0x441, 0x43F, 0x435, 0x448, 0x43D, 0x43E] @ js '' ''
     @ [0x443, 0x434, 0x430, 0x43B, 0x435, 0x43D, 0x44B]"

text \<open>"Key k was not found."\<close>

definition KEY_NOT_FOUND :: "jsstring \<Rightarrow> jsstring" where
  "KEY_NOT_FOUND k =
     [0x274C] @ js '' '' @ [0x41A, 0x43B, 0x44E, 0x447] @ js '' '' @ [0x22] @ js ''*''
     @ k @
     js ''*'' @ [0x22] @ js '' '' @ [0x43D, 0x435] @ js '' ''
     @ [0x43D, 0x430, 0x439, 0x434, 0x435, 0x43D]"

text \<open>
  The reply to a search without a result: "no value found for key k", and the command that
  would add one, \<open>!add k: <your value>\<close>, inside backquotes.
\<close>

definition KEY_NOT_FOUND_SEARCH :: "jsstring \<Rightarrow> jsstring" where
  "KEY_NOT_FOUND_SEARCH k =
     [0x417, 0x43D, 0x430, 0x447, 0x435, 0x43D, 0x438, 0x435] @ js '' '' @ [0x434, 0x43B, 0x44F]
     @ js '' '' @ [0x43A, 0x43B, 0x44E, 0x447, 0x430] @ js '' '' @ [0x22] @ js ''*''
     @ k @
     js ''*'' @ [0x22] @ js '' '' @ [0x43D, 0x435] @ js '' ''
     @ [0x43D, 0x430, 0x439, 0x434, 0x435, 0x43D, 0x43E] @ js ''.''
     @ [0xA, 0xA, 0x427, 0x442, 0x43E, 0x431, 0x44B] @ js '' ''
     @ [0x434, 0x43E, 0x431, 0x430, 0x432, 0x438, 0x442, 0x44C] @ js '' ''
     @ [0x437, 0x43D, 0x430, 0x447, 0x435, 0x43D, 0x438, 0x435] @ js '', ''
     @ [0x438, 0x441, 0x43F, 0x43E, 0x43B, 0x44C, 0x437, 0x443, 0x439, 0x442, 0x435] @ js '' ''
     @ [0x43A, 0x43E, 0x43C, 0x430, 0x43D, 0x434, 0x443] @ js '':'' @ [0xA, 0x60] @ js ''!add ''
     @ k @
     js '': <'' @ [0x432, 0x430, 0x448, 0x435] @ js '' ''
     @ [0x437, 0x43D, 0x430, 0x447, 0x435, 0x43D, 0x438, 0x435] @ js ''>'' @ [0x60]"

text \<open>The labels of the value listings and of the details reply: "Key:", "Value:", "Values (n):", "Added:", "Author:".\<close>

definition LABEL_KEY :: jsstring where
  "LABEL_KEY =
     js ''*'' @ [0x41A, 0x43B, 0x44E, 0x447] @ js '':* ''"

definition LABEL_VALUE :: jsstring where
  "LABEL_VALUE =
     [0xA] @ js ''*'' @ [0x417, 0x43D, 0x430, 0x447, 0x435, 0x43D, 0x438, 0x435] @ js '':* ''"

definition LABEL_VALUES :: "nat \<Rightarrow> jsstring" where
  "LABEL_VALUES n =
     [0xA] @ js ''*'' @ [0x417, 0x43D, 0x430, 0x447, 0x435, 0x43D, 0x438, 0x44F] @ js '' (''
     @ numberToString n @
     js ''):*'' @ [0xA]"

definition LABEL_ADDED :: jsstring where
  "LABEL_ADDED =
     [0xA] @ js ''*'' @ [0x414, 0x43E, 0x431, 0x430, 0x432, 0x43B, 0x435, 0x43D, 0x43E]
     @ js '':* ''"

definition LABEL_AUTHOR :: jsstring where
  "LABEL_AUTHOR =
     [0xA] @ js ''*'' @ [0x410, 0x432, 0x442, 0x43E, 0x440] @ js '':* ''"

text \<open>What \<open>formatDate\<close> shows for a missing date: "unknown".\<close>

definition DATE_UNKNOWN :: jsstring where
  "DATE_UNKNOWN =
     [0x43D, 0x435, 0x438, 0x437, 0x432, 0x435, 0x441, 0x442, 0x43D, 0x43E]"

text \<open>The three lines of the \<open>!multi-add\<close> summary: "values added:", "duplicates skipped:", "errors:".\<close>

definition SUMMARY_ADDED :: jsstring where
  "SUMMARY_ADDED =
     [0x2705] @ js '' '' @ [0x414, 0x43E, 0x431, 0x430, 0x432, 0x43B, 0x435, 0x43D, 0x43E]
     @ js '' '' @ [0x437, 0x43D, 0x430, 0x447, 0x435, 0x43D, 0x438, 0x439] @ js '': ''"

definition SUMMARY_DUPLICATES :: jsstring where
  "SUMMARY_DUPLICATES =
     [0x26A0, 0xFE0F] @ js '' ''
     @ [0x41F, 0x440, 0x43E, 0x43F, 0x443, 0x449, 0x435, 0x43D, 0x43E] @ js '' ''
     @ [0x434, 0x443, 0x431, 0x43B, 0x438, 0x43A, 0x430, 0x442, 0x43E, 0x432] @ js '': ''"

definition SUMMARY_ERRORS :: jsstring where
  "SUMMARY_ERRORS =
     [0x274C] @ js '' '' @ [0x41E, 0x448, 0x438, 0x431, 0x43E, 0x43A] @ js '': ''"

text \<open>The static usage text of \<open>!help\<close>.\<close>

definition HELP_TEXT :: jsstring where
  "HELP_TEXT =
     js ''*'' @ [0xD83D, 0xDCD6] @ js '' '' @ [0x421, 0x43F, 0x440, 0x430, 0x432, 0x43A, 0x430]
     @ js '' '' @ [0x43F, 0x43E] @ js '' ''
     @ [0x43A, 0x43E, 0x43C, 0x430, 0x43D, 0x434, 0x430, 0x43C] @ js '' ''
     @ [0x431, 0x43E, 0x442, 0x430] @ js ''-''
     @ [0x433, 0x43B, 0x43E, 0x441, 0x441, 0x430, 0x440, 0x438, 0x44F] @ js ''*'' @ [0xA, 0xA]
     @ js ''*!add <'' @ [0x43A, 0x43B, 0x44E, 0x447] @ js ''>:<''
     @ [0x437, 0x43D, 0x430, 0x447, 0x435, 0x43D, 0x438, 0x435] @ js ''>*''
     @ [0xA, 0x414, 0x43E, 0x431, 0x430, 0x432, 0x43B, 0x44F, 0x435, 0x442] @ js '' ''
     @ [0x437, 0x43D, 0x430, 0x447, 0x435, 0x43D, 0x438, 0x435] @ js '' ''
     @ [0x434, 0x43B, 0x44F] @ js '' ''
     @ [0x443, 0x43A, 0x430, 0x437, 0x430, 0x43D, 0x43D, 0x43E, 0x433, 0x43E] @ js '' ''
     @ [0x43A, 0x43B, 0x44E, 0x447, 0x430] @ js ''.''
     @ [0xA, 0x41F, 0x440, 0x438, 0x43C, 0x435, 0x440] @ js '': '' @ [0x60]
     @ js ''!add API:Application Programming Interface'' @ [0x60, 0xA, 0xA] @ js ''*!multi-add*''
     @ [0xA, 0x41F, 0x43E, 0x437, 0x432, 0x43E, 0x43B, 0x44F, 0x435, 0x442] @ js '' ''
     @ [0x434, 0x43E, 0x431, 0x430, 0x432, 0x438, 0x442, 0x44C] @ js '' ''
     @ [0x43D, 0x435, 0x441, 0x43A, 0x43E, 0x43B, 0x44C, 0x43A, 0x43E] @ js '' ''
     @ [0x43A, 0x43B, 0x44E, 0x447, 0x435, 0x439] @ js ''/''
     @ [0x437, 0x43D, 0x430, 0x447, 0x435, 0x43D, 0x438, 0x439] @ js '' '' @ [0x437, 0x430]
     @ js '' '' @ [0x440, 0x430, 0x437] @ js ''.''
     @ [0xA, 0x41F, 0x440, 0x438, 0x43C, 0x435, 0x440] @ js '':'' @ [0xA, 0x60, 0x60, 0x60, 0xA]
     @ js ''!multi-add'' @ [0xA] @ js ''API:Application Programming Interface;'' @ [0xA]
     @ js ''REST:Representational State Transfer;'' @ [0xA, 0x60, 0x60, 0x60, 0xA, 0xA]
     @ js ''*!remove <'' @ [0x43A, 0x43B, 0x44E, 0x447] @ js ''>*''
     @ [0xA, 0x423, 0x434, 0x430, 0x43B, 0x44F, 0x435, 0x442] @ js '' ''
     @ [0x432, 0x435, 0x441, 0x44C] @ js '' '' @ [0x43A, 0x43B, 0x44E, 0x447] @ js '' ''
     @ [0x438] @ js '' '' @ [0x432, 0x441, 0x435] @ js '' '' @ [0x435, 0x433, 0x43E] @ js '' ''
     @ [0x437, 0x43D, 0x430, 0x447, 0x435, 0x43D, 0x438, 0x44F] @ js ''.''
     @ [0xA, 0x41F, 0x440, 0x438, 0x43C, 0x435, 0x440] @ js '': '' @ [0x60] @ js ''!remove API''
     @ [0x60, 0xA, 0xA] @ js ''*!remove <'' @ [0x43A, 0x43B, 0x44E, 0x447] @ js ''>:<''
     @ [0x437, 0x43D, 0x430, 0x447, 0x435, 0x43D, 0x438, 0x435] @ js ''>*''
     @ [0xA, 0x423, 0x434, 0x430, 0x43B, 0x44F, 0x435, 0x442] @ js '' ''
     @ [0x442, 0x43E, 0x43B, 0x44C, 0x43A, 0x43E] @ js '' '' @ [0x43E, 0x434, 0x43D, 0x43E]
     @ js '' '' @ [0x43A, 0x43E, 0x43D, 0x43A, 0x440, 0x435, 0x442, 0x43D, 0x43E, 0x435]
     @ js '' '' @ [0x437, 0x43D, 0x430, 0x447, 0x435, 0x43D, 0x438, 0x435] @ js '' ''
     @ [0x434, 0x43B, 0x44F] @ js '' '' @ [0x43A, 0x43B, 0x44E, 0x447, 0x430] @ js ''.''
     @ [0xA, 0x41F, 0x440, 0x438, 0x43C, 0x435, 0x440] @ js '': '' @ [0x60]
     @ js ''!remove API:Application Programming Interface'' @ [0x60, 0xA, 0xA]
     @ js ''*!details <'' @ [0x43A, 0x43B, 0x44E, 0x447] @ js ''>:<''
     @ [0x437, 0x43D, 0x430, 0x447, 0x435, 0x43D, 0x438, 0x435] @ js ''>*''
     @ [0xA, 0x41F, 0x43E, 0x43A, 0x430, 0x437, 0x44B, 0x432, 0x430, 0x435, 0x442] @ js '' ''
     @ [0x434, 0x430, 0x442, 0x443] @ js '' ''
     @ [0x434, 0x43E, 0x431, 0x430, 0x432, 0x43B, 0x435, 0x43D, 0x438, 0x44F] @ js '' ''
     @ [0x438] @ js '' e-mail '' @ [0x430, 0x432, 0x442, 0x43E, 0x440, 0x430] @ js '' ''
     @ [0x437, 0x43D, 0x430, 0x447, 0x435, 0x43D, 0x438, 0x44F] @ js ''.''
     @ [0xA, 0x41F, 0x440, 0x438, 0x43C, 0x435, 0x440] @ js '': '' @ [0x60]
     @ js ''!details API:Application Programming Interface'' @ [0x60, 0xA, 0xA] @ js ''*!help*''
     @ [0xA, 0x41F, 0x43E, 0x43A, 0x430, 0x437, 0x44B, 0x432, 0x430, 0x435, 0x442] @ js '' ''
     @ [0x44D, 0x442, 0x443] @ js '' '' @ [0x441, 0x43F, 0x440, 0x430, 0x432, 0x43A, 0x443]
     @ js ''.'' @ [0xA, 0xA] @ js ''*'' @ [0x41F, 0x43E, 0x438, 0x441, 0x43A] @ js ''*''
     @ [0xA, 0x415, 0x441, 0x43B, 0x438] @ js '' ''
     @ [0x43E, 0x442, 0x43F, 0x440, 0x430, 0x432, 0x438, 0x442, 0x44C] @ js '' ''
     @ [0x43F, 0x440, 0x43E, 0x441, 0x442, 0x43E] @ js '' '' @ [0x43A, 0x43B, 0x44E, 0x447]
     @ js '' ('' @ [0x431, 0x435, 0x437] @ js '' ''
     @ [0x43F, 0x440, 0x435, 0x444, 0x438, 0x43A, 0x441, 0x430] @ js '' !), ''
     @ [0x431, 0x43E, 0x442] @ js '' '' @ [0x43D, 0x430, 0x439, 0x434, 0x435, 0x442] @ js '' ''
     @ [0x438] @ js '' '' @ [0x43F, 0x43E, 0x43A, 0x430, 0x436, 0x435, 0x442] @ js '' ''
     @ [0x432, 0x441, 0x435] @ js '' ''
     @ [0x437, 0x43D, 0x430, 0x447, 0x435, 0x43D, 0x438, 0x44F] @ js '' ''
     @ [0x434, 0x43B, 0x44F] @ js '' '' @ [0x44D, 0x442, 0x43E, 0x433, 0x43E] @ js '' ''
     @ [0x43A, 0x43B, 0x44E, 0x447, 0x430] @ js ''.''"

section \<open>Host environment\<close>

text \<open>
  Everything the app reaches through the Apps-Engine accessors is one explicit state:
  \<^item> \<open>store\<close>: the persistence collection, each record filed under its association (the
    association of a key is the \<open>MISC\<close> model with the normalized key as id, so the id
    stands for the association);
  \<^item> \<open>faults\<close>: the outcome of the persistence calls still to come, one element per call:
    \<open>Some e\<close> makes the call raise \<open>e\<close> and leave the collection as it is, \<open>None\<close> lets
    it succeed; once the list is used up every call succeeds;
  \<^item> \<open>outbox\<close>: the messages handed to the message creator, oldest first. A fault of
    the transport is caught and logged inside \<open>sendMessage\<close> and changes nothing else, so
    it is not a branch of its own;
  \<^item> \<open>clock\<close> and \<open>ticks\<close>: what \<open>new Date().toISOString()\<close> returns, reading after
    reading;
  \<^item> \<open>appUser\<close>: what \<open>getAppUser()\<close> answers: it raises, finds no user, or finds one;
  \<^item> \<open>toLocaleString\<close>: the runtime's \<open>new Date(iso).toLocaleString('ru-RU')\<close>, \<open>None\<close>
    where the date does not parse (\<open>isNaN(date.getTime())\<close>).
  The logger only writes to the host's log and is left out.
\<close>

datatype fault = Fault jsstring

record IUserEmail =
  address :: jsstring
  verified :: bool

record IUser =
  user_id :: jsstring
  emails :: "IUserEmail list"
  username :: jsstring
  name :: jsstring

record IRoom =
  room_id :: jsstring
  room_type :: jsstring

record IMessage =
  room :: IRoom
  sender :: IUser
  msg_text :: "jsstring option"

record world =
  store :: "(jsstring \<times> GlossaryEntry) list"
  faults :: "fault option list"
  outbox :: "(IRoom \<times> jsstring) list"
  clock :: "nat \<Rightarrow> jsstring"
  ticks :: nat
  appUser :: "fault + IUser option"
  toLocaleString :: "jsstring \<Rightarrow> jsstring option"

definition hostCall :: "world \<Rightarrow> fault option \<times> world" where
  "hostCall w = (case faults w of [] \<Rightarrow> (None, w) | f # fs \<Rightarrow> (f, w\<lparr>faults := fs\<rparr>))"

definition readByAssociation :: "jsstring \<Rightarrow> world \<Rightarrow> (fault + GlossaryEntry list) \<times> world" where
  "readByAssociation a w =
     (case hostCall w of
        (Some e, w') \<Rightarrow> (Inl e, w')
      | (None, w') \<Rightarrow> (Inr (map snd (filter (\<lambda>r. fst r = a) (store w'))), w'))"

definition removeByAssociation :: "jsstring \<Rightarrow> world \<Rightarrow> (fault + unit) \<times> world" where
  "removeByAssociation a w =
     (case hostCall w of
        (Some e, w') \<Rightarrow> (Inl e, w')
      | (None, w') \<Rightarrow> (Inr (), w'\<lparr>store := filter (\<lambda>r. fst r \<noteq> a) (store w')\<rparr>))"

definition createWithAssociation ::
    "GlossaryEntry \<Rightarrow> jsstring \<Rightarrow> world \<Rightarrow> (fault + unit) \<times> world" where
  "createWithAssociation entry a w =
     (case hostCall w of
        (Some e, w') \<Rightarrow> (Inl e, w')
      | (None, w') \<Rightarrow> (Inr (), w'\<lparr>store := store w' @ [(a, entry)]\<rparr>))"

definition toISOString_now :: "world \<Rightarrow> jsstring \<times> world" where
  "toISOString_now w = (clock w (ticks w), w\<lparr>ticks := ticks w + 1\<rparr>)"

section \<open>Glossary store\<close>

text \<open>
  \<open>getUserEmail\<close>: the first verified e-mail, else the first e-mail; then its address,
  else the user name, else the display name, else the word \<open>unknown\<close>. An absent field
  and an empty one are both falsy, so the empty string stands for both.
\<close>

definition getUserEmail :: "IUser \<Rightarrow> jsstring" where
  "getUserEmail user =
     (let primaryEmail =
            (case find verified (emails user) of
               Some e \<Rightarrow> Some e
             | None \<Rightarrow> (case emails user of [] \<Rightarrow> None | e # _ \<Rightarrow> Some e));
          addr = (case primaryEmail of None \<Rightarrow> [] | Some e \<Rightarrow> address e)
      in if addr \<noteq> [] then addr
         else if username user \<noteq> [] then username user
         else if name user \<noteq> [] then name user
         else js ''unknown'')"

definition formatDate :: "(jsstring \<Rightarrow> jsstring option) \<Rightarrow> jsstring \<Rightarrow> jsstring" where
  "formatDate render dateIso =
     (if dateIso = [] then DATE_UNKNOWN
      else (case render dateIso of None \<Rightarrow> dateIso | Some shown \<Rightarrow> shown))"

definition getAssociationForKey :: "lowerCase \<Rightarrow> jsstring \<Rightarrow> jsstring" where
  "getAssociationForKey lc k = normalizeKey lc k"

text \<open>
  \<open>getEntryForKey\<close>: the \<open>try\<close> around the read turns a raising read into \<open>null\<close>; so do
  an invalid key, no record, and a first record without values.
\<close>

definition getEntryForKey :: "lowerCase \<Rightarrow> jsstring \<Rightarrow> world \<Rightarrow> GlossaryValue list option \<times> world" where
  "getEntryForKey lc k w =
     (if \<not> isValidKey lc k then (None, w)
      else
        (case readByAssociation (getAssociationForKey lc k) w of
           (Inl e, w') \<Rightarrow> (None, w')
         | (Inr records, w') \<Rightarrow>
             (case records of
                [] \<Rightarrow> (None, w')
              | entry # _ \<Rightarrow>
                  if entry_values entry = [] then (None, w')
                  else (Some (entry_values entry), w'))))"

definition getValuesForKey :: "lowerCase \<Rightarrow> jsstring \<Rightarrow> world \<Rightarrow> jsstring list option \<times> world" where
  "getValuesForKey lc k w =
     (case getEntryForKey lc k w of
        (None, w') \<Rightarrow> (None, w')
      | (Some entry, w') \<Rightarrow> (Some (filter (\<lambda>v. v \<noteq> []) (map gvalue entry)), w'))"

text \<open>\<open>saveValuesForKey\<close> has no \<open>try\<close>: its own \<open>throw\<close> and the host's faults leave it.\<close>

definition saveValuesForKey ::
    "lowerCase \<Rightarrow> jsstring \<Rightarrow> GlossaryValue list \<Rightarrow> world \<Rightarrow> (fault + unit) \<times> world" where
  "saveValuesForKey lc k vs w =
     (if \<not> isValidKey lc k then (Inl (Fault (js ''Cannot save values: invalid key'')), w)
      else
        let association = getAssociationForKey lc k in
        (case removeByAssociation association w of
           (Inl e, w1) \<Rightarrow> (Inl e, w1)
         | (Inr _, w1) \<Rightarrow> createWithAssociation \<lparr>entry_values = vs\<rparr> association w1))"

definition addValueToKey ::
    "lowerCase \<Rightarrow> jsstring \<Rightarrow> jsstring \<Rightarrow> IUser \<Rightarrow> world \<Rightarrow> AddValueResult \<times> world" where
  "addValueToKey lc k v user w =
     (if \<not> isValidKey lc k \<or> \<not> isValidValue lc v then (\<lparr>added = False, reason = Some error\<rparr>, w)
      else
        let normalizedValue = trim v;
            normalizedValueKey = normalizeValue lc normalizedValue;
            (entry, w1) = getEntryForKey lc k w;
            existingValues = (case entry of None \<Rightarrow> [] | Some vs \<Rightarrow> vs);
            hasDuplicate =
              list_ex (\<lambda>item. normalizeValue lc (gvalue item) = normalizedValueKey) existingValues
        in if hasDuplicate then (\<lparr>added = False, reason = Some duplicate\<rparr>, w1)
           else
             let createdBy' = getUserEmail user;
                 (stamp, w2) = toISOString_now w1;
                 newValues =
                   existingValues @
                   [\<lparr>gvalue = normalizedValue, createdAt = stamp, createdBy = createdBy'\<rparr>]
             in (case saveValuesForKey lc k newValues w2 of
                   (Inl e, w3) \<Rightarrow> (\<lparr>added = False, reason = Some error\<rparr>, w3)
                 | (Inr _, w3) \<Rightarrow> (\<lparr>added = True, reason = None\<rparr>, w3)))"

definition removeKey :: "lowerCase \<Rightarrow> jsstring \<Rightarrow> world \<Rightarrow> bool \<times> world" where
  "removeKey lc k w =
     (if \<not> isValidKey lc k then (False, w)
      else
        (case getEntryForKey lc k w of
           (None, w1) \<Rightarrow> (False, w1)
         | (Some entry, w1) \<Rightarrow>
             (case removeByAssociation (getAssociationForKey lc k) w1 of
                (Inl e, w2) \<Rightarrow> (False, w2)
              | (Inr _, w2) \<Rightarrow> (True, w2))))"

definition removeValueForKey :: "lowerCase \<Rightarrow> jsstring \<Rightarrow> jsstring \<Rightarrow> world \<Rightarrow> bool \<times> world" where
  "removeValueForKey lc k v w =
     (if \<not> isValidKey lc k \<or> \<not> isValidValue lc v then (False, w)
      else
        (case getEntryForKey lc k w of
           (None, w1) \<Rightarrow> (False, w1)
         | (Some entry, w1) \<Rightarrow>
             if length entry = 0 then (False, w1)
             else
               let normalizedValue = normalizeValue lc v;
                   filtered =
                     filter (\<lambda>item. if gvalue item = [] then True
                                     else normalizeValue lc (gvalue item) \<noteq> normalizedValue) entry
               in if length filtered = length entry then (False, w1)
                  else
                    (case (if length filtered = 0
                           then removeByAssociation (getAssociationForKey lc k) w1
                           else saveValuesForKey lc k filtered w1) of
                       (Inl e, w2) \<Rightarrow> (False, w2)
                     | (Inr _, w2) \<Rightarrow> (True, w2))))"

section \<open>Reply formatter and command dispatcher\<close>

definition sendMessage :: "IRoom \<Rightarrow> jsstring \<Rightarrow> world \<Rightarrow> world" where
  "sendMessage r t w = (if trim t = [] then w else w\<lparr>outbox := outbox w @ [(r, t)]\<rparr>)"

definition formatValuesForDisplay :: "jsstring \<Rightarrow> jsstring list \<Rightarrow> jsstring" where
  "formatValuesForDisplay k vs =
     (if length vs = 1 then LABEL_KEY @ k @ LABEL_VALUE @ hd vs
      else
        let lines =
              joinWith [0x0A]
                (map (\<lambda>(index, v). numberToString (index + 1) @ js ''. '' @ v) (enumerate 0 vs))
        in LABEL_KEY @ k @ LABEL_VALUES (length vs) @ lines)"

definition sendValuesToUser :: "IRoom \<Rightarrow> jsstring \<Rightarrow> jsstring list \<Rightarrow> world \<Rightarrow> world" where
  "sendValuesToUser r k vs w =
     (if length vs = 0 then w else sendMessage r (formatValuesForDisplay k vs) w)"

definition messageText :: "IMessage \<Rightarrow> jsstring" where
  "messageText message = trim (case msg_text message of None \<Rightarrow> [] | Some t \<Rightarrow> t)"

definition handleAddCommand :: "lowerCase \<Rightarrow> IMessage \<Rightarrow> world \<Rightarrow> world" where
  "handleAddCommand lc message w =
     (let commandText = extractCommandPayload lc (messageText message) (COMMANDS ADD) in
      case parseKeyValue lc commandText of
        None \<Rightarrow> sendMessage (room message) INVALID_ADD_FORMAT w
      | Some pair \<Rightarrow>
          let (result, w1) = addValueToKey lc (key pair) (val pair) (sender message) w;
              responseText =
                (if added result then VALUE_ADDED (key pair) (val pair)
                 else if reason result = Some duplicate then DUPLICATE_VALUE (key pair)
                 else SAVE_ERROR)
          in sendMessage (room message) responseText w1)"

text \<open>The loop of \<open>handleMultiAddCommand\<close> with its three counters.\<close>

fun multiAdd_loop ::
    "lowerCase \<Rightarrow> KeyValuePair list \<Rightarrow> IUser \<Rightarrow> nat \<times> nat \<times> nat \<Rightarrow> world \<Rightarrow> (nat \<times> nat \<times> nat) \<times> world" where
  "multiAdd_loop lc [] user counts w = (counts, w)"
| "multiAdd_loop lc (pair # pairs) user (nadded, duplicates, errors) w =
     (let (result, w1) = addValueToKey lc (key pair) (val pair) user w in
      if added result then multiAdd_loop lc pairs user (nadded + 1, duplicates, errors) w1
      else if reason result = Some duplicate
      then multiAdd_loop lc pairs user (nadded, duplicates + 1, errors) w1
      else multiAdd_loop lc pairs user (nadded, duplicates, errors + 1) w1)"

definition multiAdd_summary :: "nat \<times> nat \<times> nat \<Rightarrow> jsstring" where
  "multiAdd_summary counts =
     (case counts of (nadded, duplicates, errors) \<Rightarrow>
        let responseParts =
              [SUMMARY_ADDED @ numberToString nadded]
              @ (if duplicates > 0 then [SUMMARY_DUPLICATES @ numberToString duplicates] else [])
              @ (if errors > 0 then [SUMMARY_ERRORS @ numberToString errors] else [])
        in joinWith [0x0A] responseParts)"

definition handleMultiAddCommand :: "lowerCase \<Rightarrow> IMessage \<Rightarrow> world \<Rightarrow> world" where
  "handleMultiAddCommand lc message w =
     (let commandText = extractCommandPayload lc (messageText message) (COMMANDS MULTI_ADD);
          pairs = parseMultiAdd lc commandText
      in if length pairs = 0 then sendMessage (room message) INVALID_MULTI_ADD_FORMAT w
         else
           let (counts, w1) = multiAdd_loop lc pairs (sender message) (0, 0, 0) w
           in sendMessage (room message) (multiAdd_summary counts) w1)"

definition handleRemoveCommand :: "lowerCase \<Rightarrow> IMessage \<Rightarrow> world \<Rightarrow> world" where
  "handleRemoveCommand lc message w =
     (let commandText = extractCommandPayload lc (messageText message) (COMMANDS REMOVE) in
      case parseKeyValue lc commandText of
        Some pair \<Rightarrow>
          let (removed, w1) = removeValueForKey lc (key pair) (val pair) w;
              responseText =
                (if removed then VALUE_REMOVED (key pair) (val pair)
                 else VALUE_NOT_FOUND (key pair) (val pair))
          in sendMessage (room message) responseText w1
      | None \<Rightarrow>
          let k = trim commandText in
          if \<not> isValidKey lc k then sendMessage (room message) INVALID_REMOVE_FORMAT w
          else
            let (removed, w1) = removeKey lc k w;
                responseText = (if removed then KEY_REMOVED k else KEY_NOT_FOUND k)
            in sendMessage (room message) responseText w1)"

definition handleDetailsCommand :: "lowerCase \<Rightarrow> IMessage \<Rightarrow> world \<Rightarrow> world" where
  "handleDetailsCommand lc message w =
     (let commandText = extractCommandPayload lc (messageText message) (COMMANDS DETAILS) in
      case parseKeyValue lc commandText of
        None \<Rightarrow> sendMessage (room message) INVALID_DETAILS_FORMAT w
      | Some pair \<Rightarrow>
          (case getEntryForKey lc (key pair) w of
             (None, w1) \<Rightarrow> sendMessage (room message) (KEY_NOT_FOUND (key pair)) w1
           | (Some entry, w1) \<Rightarrow>
               let normalizedValue = normalizeValue lc (val pair) in
               (case find (\<lambda>item. normalizeValue lc (gvalue item) = normalizedValue) entry of
                  None \<Rightarrow>
                    sendMessage (room message) (VALUE_NOT_FOUND (key pair) (val pair)) w1
                | Some valueInfo \<Rightarrow>
                    let formattedDate = formatDate (toLocaleString w1) (createdAt valueInfo);
                        detailsText =
                          LABEL_KEY @ key pair @ LABEL_VALUE @ gvalue valueInfo
                          @ LABEL_ADDED @ formattedDate @ LABEL_AUTHOR @ createdBy valueInfo
                    in sendMessage (room message) detailsText w1)))"

definition handleHelpCommand :: "IRoom \<Rightarrow> world \<Rightarrow> world" where
  "handleHelpCommand r w = sendMessage r HELP_TEXT w"

text \<open>
  \<open>shouldProcessMessage\<close>: \<open>getAppUser\<close> is awaited outside any \<open>try\<close>, so its fault is
  the one result that leaves the handler.
\<close>

definition shouldProcessMessage :: "IMessage \<Rightarrow> world \<Rightarrow> fault + bool" where
  "shouldProcessMessage message w =
     (if room_type (room message) \<noteq> ROOM_TYPE_DIRECT then Inr False
      else
        (case appUser w of
           Inl e \<Rightarrow> Inl e
         | Inr None \<Rightarrow> Inr False
         | Inr (Some self) \<Rightarrow>
             if user_id (sender message) = user_id self then Inr False
             else if messageText message = [] then Inr False
             else Inr True))"

definition handleKeySearch :: "lowerCase \<Rightarrow> jsstring \<Rightarrow> IRoom \<Rightarrow> world \<Rightarrow> world" where
  "handleKeySearch lc k r w =
     (if \<not> isValidKey lc k then sendMessage r INVALID_SEARCH_KEY w
      else
        (case getValuesForKey lc k w of
           (Some vs, w1) \<Rightarrow>
             if length vs > 0 then sendValuesToUser r k vs w1
             else sendMessage r (KEY_NOT_FOUND_SEARCH k) w1
         | (None, w1) \<Rightarrow> sendMessage r (KEY_NOT_FOUND_SEARCH k) w1))"

fun executeCommand :: "lowerCase \<Rightarrow> CommandType \<Rightarrow> IMessage \<Rightarrow> world \<Rightarrow> world" where
  "executeCommand lc ADD message w = handleAddCommand lc message w"
| "executeCommand lc MULTI_ADD message w = handleMultiAddCommand lc message w"
| "executeCommand lc REMOVE message w = handleRemoveCommand lc message w"
| "executeCommand lc DETAILS message w = handleDetailsCommand lc message w"
| "executeCommand lc HELP message w = handleHelpCommand (room message) w"

text \<open>
  \<open>executePostMessageSent\<close> returns the fault that left it, if any, and the new state.
\<close>

definition executePostMessageSent :: "lowerCase \<Rightarrow> IMessage \<Rightarrow> world \<Rightarrow> fault option \<times> world" where
  "executePostMessageSent lc message w =
     (case shouldProcessMessage message w of
        Inl e \<Rightarrow> (Some e, w)
      | Inr False \<Rightarrow> (None, w)
      | Inr True \<Rightarrow>
          let text = messageText message in
          (case getCommandType text of
             Some commandType \<Rightarrow> (None, executeCommand lc commandType message w)
           | None \<Rightarrow> (None, handleKeySearch lc text (room message) w)))"

section \<open>Vocabulary of the properties\<close>

text \<open>
  \<open>nextFault\<close> is the outcome of the next persistence call and \<open>advance\<close> the state after
  it; \<open>storedRecords\<close> are the records filed under an association and \<open>storedValues\<close>
  the value list a successful read of a key finds there.
\<close>

definition nextFault :: "world \<Rightarrow> fault option" where
  "nextFault w = (case faults w of [] \<Rightarrow> None | f # _ \<Rightarrow> f)"

definition advance :: "world \<Rightarrow> world" where
  "advance w = w\<lparr>faults := tl (faults w)\<rparr>"

definition storedRecords :: "jsstring \<Rightarrow> world \<Rightarrow> GlossaryEntry list" where
  "storedRecords a w = map snd (filter (\<lambda>r. fst r = a) (store w))"

definition storedValues :: "lowerCase \<Rightarrow> jsstring \<Rightarrow> world \<Rightarrow> GlossaryValue list option" where
  "storedValues lc k w =
     (case storedRecords (normalizeKey lc k) w of
        [] \<Rightarrow> None
      | entry # _ \<Rightarrow> if entry_values entry = [] then None else Some (entry_values entry))"

text \<open>What \<open>addValueToKey\<close> takes for the existing values: nothing after a raising read.\<close>

definition existingValues :: "lowerCase \<Rightarrow> jsstring \<Rightarrow> world \<Rightarrow> GlossaryValue list" where
  "existingValues lc k w =
     (case nextFault w of
        Some e \<Rightarrow> []
      | None \<Rightarrow> (case storedValues lc k w of None \<Rightarrow> [] | Some vs \<Rightarrow> vs))"

definition hasValue :: "lowerCase \<Rightarrow> jsstring \<Rightarrow> GlossaryValue list \<Rightarrow> bool" where
  "hasValue lc v vs = list_ex (\<lambda>item. normalizeValue lc (gvalue item) = normalizeValue lc v) vs"

text \<open>What \<open>removeValueForKey\<close> keeps of an entry: the filter of the source.\<close>

definition keepOthers :: "lowerCase \<Rightarrow> jsstring \<Rightarrow> GlossaryValue list \<Rightarrow> GlossaryValue list" where
  "keepOthers lc v entry =
     filter (\<lambda>item. if gvalue item = [] then True
                     else normalizeValue lc (gvalue item) \<noteq> normalizeValue lc v) entry"

text \<open>
  The same state with other details in the faults to come: which calls raise is
  unchanged, what they raise is replaced.
\<close>

definition redetail :: "(fault \<Rightarrow> fault) \<Rightarrow> world \<Rightarrow> world" where
  "redetail f w = w\<lparr>faults := map (map_option f) (faults w)\<rparr>"

text \<open>The invariant of the store: no record with an empty value list.\<close>

definition noEmptyEntry :: "world \<Rightarrow> bool" where
  "noEmptyEntry w = list_all (\<lambda>r. entry_values (snd r) \<noteq> []) (store w)"





text \<open>The three results of \<open>addValueToKey\<close>.\<close>

definition Added :: AddValueResult where
  "Added = \<lparr>added = True, reason = None\<rparr>"


definition Error :: AddValueResult where
  "Error = \<lparr>added = False, reason = Some error\<rparr>"

subsection \<open>A sample conversation\<close>

definition alice :: IUser where
  "alice =
     \<lparr>user_id = js ''u-alice'',
      emails = [\<lparr>address = js ''alice@example.org'', verified = True\<rparr>],
      username = js ''alice'', name = js ''Alice''\<rparr>"

definition glossaryBot :: IUser where
  "glossaryBot =
     \<lparr>user_id = js ''u-bot'', emails = [], username = js ''glossary.bot'', name = []\<rparr>"

definition directRoom :: IRoom where
  "directRoom = \<lparr>room_id = js ''alice-bot'', room_type = js ''d''\<rparr>"

definition says :: "jsstring \<Rightarrow> IMessage" where
  "says t = \<lparr>room = directRoom, sender = alice, msg_text = Some t\<rparr>"

definition sampleClock :: "nat \<Rightarrow> jsstring" where
  "sampleClock n = js ''2025-01-01T00:00:00.00'' @ numberToString n @ js ''Z''"

definition sampleLocale :: "jsstring \<Rightarrow> jsstring option" where
  "sampleLocale stamp = Some (js ''ru-RU '' @ stamp)"

definition freshWorld :: world where
  "freshWorld =
     \<lparr>store = [], faults = [], outbox = [], clock = sampleClock, ticks = 0,
      appUser = Inr (Some glossaryBot), toLocaleString = sampleLocale\<rparr>"

text \<open>The state after Alice has defined \<open>API\<close> as \<open>REST\<close>.\<close>

definition restValue :: GlossaryValue where
  "restValue =
     \<lparr>gvalue = js ''REST'', createdAt = sampleClock 0, createdBy = js ''alice@example.org''\<rparr>"

definition apiWorld :: world where
  "apiWorld = freshWorld\<lparr>store := [(js ''api'', \<lparr>entry_values = [restValue]\<rparr>)], ticks := 1\<rparr>"

text \<open>The same state with a persistence back end whose next call raises.\<close>

definition readFaultWorld :: world where
  "readFaultWorld = apiWorld\<lparr>faults := [Some (Fault (js ''connection lost''))]\<rparr>"

definition soapValue :: GlossaryValue where
  "soapValue =
     \<lparr>gvalue = js ''SOAP'', createdAt = sampleClock 1, createdBy = js ''alice@example.org''\<rparr>"

text \<open>A fresh state whose fourth persistence call raises.\<close>

definition laterFaultWorld :: world where
  "laterFaultWorld =
     freshWorld\<lparr>faults := [None, None, None, Some (Fault (js ''connection lost''))]\<rparr>"

definition writeFaultWorld :: world where
  "writeFaultWorld = apiWorld\<lparr>faults := [None, Some (Fault (js ''connection lost''))]\<rparr>"

text \<open>The state after Alice has added \<open>SOAP\<close> as a second value of \<open>API\<close>.\<close>

definition restSoapWorld :: world where
  "restSoapWorld =
     freshWorld\<lparr>store := [(js ''api'', \<lparr>entry_values = [restValue, soapValue]\<rparr>)], ticks := 2\<rparr>"

section \<open>Strings and normalization: basic facts\<close>

lemma trimStart_Nil [simp]: "trimStart [] = []" by (simp add: trimStart_def)
lemma trimEnd_Nil [simp]: "trimEnd [] = []" by (simp add: trimEnd_def)
lemma trim_Nil [simp]: "trim [] = []" by (simp add: trim_def)

lemma trimEnd_eq_Nil: "trimEnd s = [] \<longleftrightarrow> (\<forall>c\<in>set s. isWhiteSpace c)"
  by (auto simp: trimEnd_def dropWhile_eq_Nil_conv)

lemma trimStart_eq_Nil: "trimStart s = [] \<longleftrightarrow> (\<forall>c\<in>set s. isWhiteSpace c)"
  by (auto simp: trimStart_def dropWhile_eq_Nil_conv)

lemma set_trimStart: "set (trimStart s) \<subseteq> set s"
  by (auto simp: trimStart_def dest: set_dropWhileD)

lemma trim_eq_Nil: "trim s = [] \<longleftrightarrow> (\<forall>c\<in>set s. isWhiteSpace c)"
proof
  assume "trim s = []"
  then have a: "\<forall>c\<in>set (dropWhile isWhiteSpace s). isWhiteSpace c"
    by (simp add: trim_def trimEnd_eq_Nil trimStart_def)
  have "dropWhile isWhiteSpace s = []"
  proof (cases "dropWhile isWhiteSpace s")
    case (Cons x xs)
    then have "\<not> isWhiteSpace x" using hd_dropWhile[of isWhiteSpace s] by simp
    with a Cons show ?thesis by simp
  qed simp
  then show "\<forall>c\<in>set s. isWhiteSpace c" by (simp add: dropWhile_eq_Nil_conv)
next
  assume "\<forall>c\<in>set s. isWhiteSpace c"
  then have "trimStart s = []" by (simp add: trimStart_eq_Nil)
  then show "trim s = []" by (simp add: trim_def)
qed

lemma trimStart_fix: "s \<noteq> [] \<Longrightarrow> \<not> isWhiteSpace (hd s) \<Longrightarrow> trimStart s = s"
  by (cases s) (simp_all add: trimStart_def)

lemma trimEnd_fix: "s \<noteq> [] \<Longrightarrow> \<not> isWhiteSpace (last s) \<Longrightarrow> trimEnd s = s"
  by (cases s rule: rev_cases) (simp_all add: trimEnd_def)

lemma trimStart_hd: "trimStart s \<noteq> [] \<Longrightarrow> \<not> isWhiteSpace (hd (trimStart s))"
  unfolding trimStart_def using hd_dropWhile by blast

lemma trimEnd_last: "trimEnd s \<noteq> [] \<Longrightarrow> \<not> isWhiteSpace (last (trimEnd s))"
  unfolding trimEnd_def using hd_dropWhile[of isWhiteSpace "rev s"] by (simp add: last_rev)

lemma trimEnd_hd: "trimEnd s \<noteq> [] \<Longrightarrow> s \<noteq> [] \<and> hd (trimEnd s) = hd s"
proof -
  assume a: "trimEnd s \<noteq> []"
  have "rev s = takeWhile isWhiteSpace (rev s) @ dropWhile isWhiteSpace (rev s)" by simp
  then have "s = trimEnd s @ rev (takeWhile isWhiteSpace (rev s))"
    unfolding trimEnd_def by (metis rev_append rev_rev_ident)
  with a show ?thesis by (metis hd_append2 append_is_Nil_conv)
qed

lemma trim_hd: "trim s \<noteq> [] \<Longrightarrow> \<not> isWhiteSpace (hd (trim s))"
  unfolding trim_def using trimEnd_hd[of "trimStart s"] trimStart_hd[of s] by auto

lemma trim_last: "trim s \<noteq> [] \<Longrightarrow> \<not> isWhiteSpace (last (trim s))"
  unfolding trim_def by (rule trimEnd_last)

lemma trim_fix: "s \<noteq> [] \<Longrightarrow> \<not> isWhiteSpace (hd s) \<Longrightarrow> \<not> isWhiteSpace (last s) \<Longrightarrow> trim s = s"
  by (simp add: trim_def trimStart_fix trimEnd_fix)

lemma trim_idem [simp]: "trim (trim s) = trim s"
proof (cases "trim s = []")
  case False
  then show ?thesis by (intro trim_fix trim_hd trim_last)
qed simp

lemma asciiLowerCase_length [simp]: "length (asciiLowerCase s) = length s"
  by (simp add: asciiLowerCase_def)

lemma asciiLowerCase_append: "asciiLowerCase (a @ b) = asciiLowerCase a @ asciiLowerCase b"
  by (simp add: asciiLowerCase_def)

lemma lowerCaseLike_prefix:
  assumes "lowerCaseLike lc" and "list_all isAscii a"
  shows "\<exists>s'. lc (a @ s) = asciiLowerCase a @ s' \<and> (s' = [] \<longleftrightarrow> s = [])"
  using assms unfolding lowerCaseLike_def asciiLowerCase_def by blast

lemma lowerCaseLike_eq_Nil: "lowerCaseLike lc \<Longrightarrow> lc s = [] \<longleftrightarrow> s = []"
  using lowerCaseLike_prefix [of lc "[]" s] by (simp add: asciiLowerCase_def)

lemma lowerCaseLike_ascii: "lowerCaseLike lc \<Longrightarrow> list_all isAscii a \<Longrightarrow> lc a = asciiLowerCase a"
  using lowerCaseLike_prefix [of lc a "[]"] by simp

lemma lowerCaseLike_asciiLowerCase: "lowerCaseLike asciiLowerCase"
  by (simp add: lowerCaseLike_def asciiLowerCase_def)

lemma isValidKey_iff: "lowerCaseLike lc \<Longrightarrow> isValidKey lc k \<longleftrightarrow> trim k \<noteq> []"
  by (simp add: isValidKey_def normalizeKey_def lowerCaseLike_eq_Nil)

lemma isValidValue_iff: "lowerCaseLike lc \<Longrightarrow> isValidValue lc v \<longleftrightarrow> trim v \<noteq> []"
  by (simp add: isValidValue_def normalizeValue_def lowerCaseLike_eq_Nil)

lemma indexOf_absent: "c \<notin> set s \<Longrightarrow> indexOf s c = - 1"
  by (simp add: indexOf_def)

lemma indexOf_first: "c \<notin> set a \<Longrightarrow> indexOf (a @ c # b) c = int (length a)"
proof -
  assume a: "c \<notin> set a"
  then have "takeWhile (\<lambda>x. x \<noteq> c) (a @ c # b) = a"
    by (subst takeWhile_append2) auto
  then show ?thesis by (simp add: indexOf_def)
qed

lemma parseKeyValue_no_colon: "0x3A \<notin> set text \<Longrightarrow> parseKeyValue lc text = None"
  by (simp add: parseKeyValue_def indexOf_absent Let_def)

lemma parseKeyValue_colon:
  assumes "0x3A \<notin> set a" and "lowerCaseLike lc"
  shows "parseKeyValue lc (a @ 0x3A # b) =
           (if a = [] \<or> trim a = [] \<or> trim b = [] then None
            else Some \<lparr>key = trim a, val = trim b\<rparr>)"
  using assms
  by (simp add: parseKeyValue_def indexOf_first Let_def substring_def substringFrom_def
      isValidKey_iff isValidValue_iff)

lemma parseKeyValue_part_000_eq:
  assumes lc: "lowerCaseLike lc"
  shows "parseKeyValue_part_000 text = parseKeyValue lc text"
proof (cases "0x3A \<in> set text")
  case True
  then obtain a b where t: "text = a @ 0x3A # b" and n: "0x3A \<notin> set a"
    by (meson split_list_first)
  have "parseKeyValue_part_000 (a @ 0x3A # b) =
      (if trim a = [] \<or> trim b = [] then None else Some \<lparr>key = trim a, val = trim b\<rparr>)"
    using n by (simp add: parseKeyValue_part_000_def indexOf_first Let_def substring_def
        substringFrom_def)
  then show ?thesis
    unfolding t parseKeyValue_colon [OF n lc] by auto
next
  case False
  then show ?thesis
    by (simp add: parseKeyValue_part_000_def parseKeyValue_no_colon indexOf_absent)
qed

section \<open>Command words: basic facts\<close>

lemma startsWith_iff: "startsWith s p \<longleftrightarrow> (\<exists>rest. s = p @ rest)"
proof
  assume "startsWith s p"
  then have "s = p @ drop (length p) s"
    unfolding startsWith_def by (metis append_take_drop_id)
  then show "\<exists>rest. s = p @ rest" ..
next
  assume "\<exists>rest. s = p @ rest"
  then show "startsWith s p" by (auto simp: startsWith_def)
qed

lemma charAt_append: "charAt (p @ rest) (length p) = (case rest of [] \<Rightarrow> [] | c # _ \<Rightarrow> [c])"
  by (cases rest) (simp_all add: charAt_def)

lemma matchesCommand_iff:
  "matchesCommand text cmd \<longleftrightarrow>
     (\<exists>rest. trim text = COMMAND_PREFIX @ cmd @ rest \<and> (rest = [] \<or> isWhiteSpace (hd rest)))"
proof
  assume m: "matchesCommand text cmd"
  then have "startsWith (trim text) (COMMAND_PREFIX @ cmd)"
    unfolding matchesCommand_def Let_def by (simp split: if_splits)
  then obtain rest where r: "trim text = (COMMAND_PREFIX @ cmd) @ rest"
    unfolding startsWith_iff by blast
  from m have "charAt (trim text) (length (COMMAND_PREFIX @ cmd)) = [] \<or>
      list_ex isWhiteSpace (charAt (trim text) (length (COMMAND_PREFIX @ cmd)))"
    unfolding matchesCommand_def Let_def by (simp split: if_splits)
  then have "rest = [] \<or> isWhiteSpace (hd rest)"
    unfolding r charAt_append by (cases rest) simp_all
  with r show "\<exists>rest. trim text = COMMAND_PREFIX @ cmd @ rest \<and> (rest = [] \<or> isWhiteSpace (hd rest))"
    by auto
next
  assume "\<exists>rest. trim text = COMMAND_PREFIX @ cmd @ rest \<and> (rest = [] \<or> isWhiteSpace (hd rest))"
  then obtain rest where r: "trim text = (COMMAND_PREFIX @ cmd) @ rest"
    and n: "rest = [] \<or> isWhiteSpace (hd rest)" by auto
  have 1: "isCommand text"
    unfolding isCommand_def startsWith_iff using r by auto
  have 2: "startsWith (trim text) (COMMAND_PREFIX @ cmd)"
    unfolding startsWith_iff using r by blast
  have 3: "charAt (trim text) (length (COMMAND_PREFIX @ cmd)) = [] \<or>
      list_ex isWhiteSpace (charAt (trim text) (length (COMMAND_PREFIX @ cmd)))"
    unfolding r charAt_append using n by (cases rest) simp_all
  from 1 2 3 show "matchesCommand text cmd"
    unfolding matchesCommand_def Let_def by simp
qed

text \<open>The five command words differ in their first letter, so at most one of them fits.\<close>

lemma command_word_unique:
  "t = COMMAND_PREFIX @ COMMANDS c @ rest \<Longrightarrow> t = COMMAND_PREFIX @ COMMANDS c' @ rest' \<Longrightarrow> c = c'"
  by (cases c; cases c') (simp_all add: COMMANDS.simps COMMAND_PREFIX_def js_def)

lemma matchesCommand_unique:
  "matchesCommand text (COMMANDS c) \<Longrightarrow> matchesCommand text (COMMANDS c') \<Longrightarrow> c = c'"
  unfolding matchesCommand_iff using command_word_unique by metis

lemma getCommandType_Some_iff:
  "getCommandType text = Some c \<longleftrightarrow> matchesCommand text (COMMANDS c)"
proof
  assume "getCommandType text = Some c"
  then show "matchesCommand text (COMMANDS c)"
    unfolding getCommandType_def by (auto split: if_splits)
next
  assume m: "matchesCommand text (COMMANDS c)"
  have "\<And>c'. c' \<noteq> c \<Longrightarrow> \<not> matchesCommand text (COMMANDS c')"
    using m matchesCommand_unique by blast
  with m show "getCommandType text = Some c"
    unfolding getCommandType_def by (cases c) simp_all
qed

lemma getCommandType_None_iff:
  "getCommandType text = None \<longleftrightarrow> (\<forall>c. \<not> matchesCommand text (COMMANDS c))"
proof -
  have "getCommandType text = None \<longleftrightarrow> (\<forall>c. getCommandType text \<noteq> Some c)" by auto
  then show ?thesis by (simp add: getCommandType_Some_iff)
qed

lemma getCommandType_find:
  "getCommandType text =
     find (\<lambda>c. matchesCommand text (COMMANDS c)) [ADD, MULTI_ADD, REMOVE, DETAILS, HELP]"
  by (simp add: getCommandType_def)

section \<open>Persistence and store: normal forms\<close>

lemma hostCall_eq: "hostCall w = (nextFault w, advance w)"
  by (cases "faults w") (simp_all add: hostCall_def nextFault_def advance_def)

lemma readByAssociation_eq:
  "readByAssociation a w =
     ((case nextFault w of Some e \<Rightarrow> Inl e | None \<Rightarrow> Inr (storedRecords a w)), advance w)"
  by (simp add: readByAssociation_def hostCall_eq storedRecords_def advance_def split: option.splits)

lemma removeByAssociation_eq:
  "removeByAssociation a w =
     (case nextFault w of
        Some e \<Rightarrow> (Inl e, advance w)
      | None \<Rightarrow> (Inr (), (advance w)\<lparr>store := filter (\<lambda>r. fst r \<noteq> a) (store w)\<rparr>))"
  by (simp add: removeByAssociation_def hostCall_eq advance_def split: option.splits)

lemma createWithAssociation_eq:
  "createWithAssociation entry a w =
     (case nextFault w of
        Some e \<Rightarrow> (Inl e, advance w)
      | None \<Rightarrow> (Inr (), (advance w)\<lparr>store := store w @ [(a, entry)]\<rparr>))"
  by (simp add: createWithAssociation_def hostCall_eq advance_def split: option.splits)

lemma getEntryForKey_eq:
  "getEntryForKey lc k w =
     (if \<not> isValidKey lc k then (None, w)
      else ((case nextFault w of Some e \<Rightarrow> None | None \<Rightarrow> storedValues lc k w), advance w))"
  by (simp add: getEntryForKey_def readByAssociation_eq storedValues_def getAssociationForKey_def
      split: option.splits list.splits)

lemma advance_simps [simp]:
  "store (advance w) = store w" "outbox (advance w) = outbox w" "clock (advance w) = clock w"
  "ticks (advance w) = ticks w" "appUser (advance w) = appUser w"
  "toLocaleString (advance w) = toLocaleString w" "faults (advance w) = tl (faults w)"
  by (simp_all add: advance_def)

lemma storedRecords_simps [simp]:
  "storedRecords a (advance w) = storedRecords a w"
  "storedRecords a (w\<lparr>ticks := n\<rparr>) = storedRecords a w"
  "storedRecords a (w\<lparr>outbox := ob\<rparr>) = storedRecords a w"
  "storedRecords a (w\<lparr>faults := fs\<rparr>) = storedRecords a w"
  by (simp_all add: storedRecords_def)

lemma storedRecords_removed [simp]:
  "storedRecords a (w\<lparr>store := filter (\<lambda>r. fst r \<noteq> a) st\<rparr>) = []"
  by (simp add: storedRecords_def)

lemma storedRecords_replaced:
  "storedRecords a (w\<lparr>store := filter (\<lambda>r. fst r \<noteq> a) st @ [(a, entry)]\<rparr>) = [entry]"
  by (simp add: storedRecords_def)

lemma saveValuesForKey_eq:
  "saveValuesForKey lc k vs w =
     (if \<not> isValidKey lc k then (Inl (Fault (js ''Cannot save values: invalid key'')), w)
      else
        (case nextFault w of
           Some e \<Rightarrow> (Inl e, advance w)
         | None \<Rightarrow>
             (case nextFault (advance w) of
                Some e \<Rightarrow> (Inl e, (advance (advance w))\<lparr>store := filter (\<lambda>r. fst r \<noteq> normalizeKey lc k) (store w)\<rparr>)
              | None \<Rightarrow>
                  (Inr (), (advance (advance w))
                       \<lparr>store := filter (\<lambda>r. fst r \<noteq> normalizeKey lc k) (store w)
                                 @ [(normalizeKey lc k, \<lparr>entry_values = vs\<rparr>)]\<rparr>))))"
  by (simp add: saveValuesForKey_def removeByAssociation_eq createWithAssociation_eq
      getAssociationForKey_def nextFault_def advance_def Let_def split: option.splits)


lemma normalizeValue_trim [simp]: "normalizeValue lc (trim v) = normalizeValue lc v"
  by (simp add: normalizeValue_def)

lemma normalizeKey_trim [simp]: "normalizeKey lc (trim v) = normalizeKey lc v"
  by (simp add: normalizeKey_def)

lemma addValueToKey_eq:
  "addValueToKey lc k v user w =
     (if \<not> isValidKey lc k \<or> \<not> isValidValue lc v then (\<lparr>added = False, reason = Some error\<rparr>, w)
      else if hasValue lc v (existingValues lc k w)
      then (\<lparr>added = False, reason = Some duplicate\<rparr>, advance w)
      else
        (case saveValuesForKey lc k
                (existingValues lc k w @
                 [\<lparr>gvalue = trim v, createdAt = clock w (ticks w), createdBy = getUserEmail user\<rparr>])
                ((advance w)\<lparr>ticks := ticks w + 1\<rparr>) of
           (Inl e, w3) \<Rightarrow> (\<lparr>added = False, reason = Some error\<rparr>, w3)
         | (Inr _, w3) \<Rightarrow> (\<lparr>added = True, reason = None\<rparr>, w3)))"
  by (simp add: addValueToKey_def getEntryForKey_eq existingValues_def hasValue_def
      toISOString_now_def Let_def split: option.splits)

section \<open>Store operations: normal forms and the invariant\<close>

lemma nextFault_simps [simp]:
  "nextFault (w\<lparr>ticks := n\<rparr>) = nextFault w"
  "nextFault (w\<lparr>store := st\<rparr>) = nextFault w"
  "nextFault (w\<lparr>outbox := ob\<rparr>) = nextFault w"
  by (simp_all add: nextFault_def)

lemma advance_update [simp]:
  "advance (w\<lparr>ticks := n\<rparr>) = (advance w)\<lparr>ticks := n\<rparr>"
  "advance (w\<lparr>store := st\<rparr>) = (advance w)\<lparr>store := st\<rparr>"
  "advance (w\<lparr>outbox := ob\<rparr>) = (advance w)\<lparr>outbox := ob\<rparr>"
  by (simp_all add: advance_def)

lemma removeKey_eq:
  "removeKey lc k w =
     (if \<not> isValidKey lc k then (False, w)
      else if nextFault w \<noteq> None \<or> storedValues lc k w = None then (False, advance w)
      else
        (case nextFault (advance w) of
           Some e \<Rightarrow> (False, advance (advance w))
         | None \<Rightarrow>
             (True, (advance (advance w))\<lparr>store := filter (\<lambda>r. fst r \<noteq> normalizeKey lc k) (store w)\<rparr>)))"
  by (auto simp: removeKey_def getEntryForKey_eq removeByAssociation_eq getAssociationForKey_def
      split: option.splits)

lemma removeValueForKey_eq:
  "removeValueForKey lc k v w =
     (if \<not> isValidKey lc k \<or> \<not> isValidValue lc v then (False, w)
      else
        (case (case nextFault w of Some e \<Rightarrow> None | None \<Rightarrow> storedValues lc k w) of
           None \<Rightarrow> (False, advance w)
         | Some entry \<Rightarrow>
             if length (keepOthers lc v entry) = length entry then (False, advance w)
             else
               (case (if keepOthers lc v entry = []
                      then removeByAssociation (normalizeKey lc k) (advance w)
                      else saveValuesForKey lc k (keepOthers lc v entry) (advance w)) of
                  (Inl e, w2) \<Rightarrow> (False, w2)
                | (Inr _, w2) \<Rightarrow> (True, w2))))"
  by (simp add: removeValueForKey_def getEntryForKey_eq getAssociationForKey_def keepOthers_def
      Let_def split: option.splits)

lemma storedValues_not_empty: "storedValues lc k w \<noteq> Some []"
  by (simp add: storedValues_def split: list.splits)

lemma getEntryForKey_not_empty: "fst (getEntryForKey lc k w) \<noteq> Some []"
  by (simp add: getEntryForKey_eq storedValues_not_empty split: option.splits)

lemma noEmptyEntry_frame [simp]:
  "noEmptyEntry (advance w) = noEmptyEntry w"
  "noEmptyEntry (w\<lparr>ticks := n\<rparr>) = noEmptyEntry w"
  "noEmptyEntry (w\<lparr>outbox := ob\<rparr>) = noEmptyEntry w"
  "noEmptyEntry (w\<lparr>faults := fs\<rparr>) = noEmptyEntry w"
  by (simp_all add: noEmptyEntry_def)

lemma noEmptyEntry_filter:
  "noEmptyEntry w \<Longrightarrow> noEmptyEntry (w'\<lparr>store := filter P (store w)\<rparr>)"
  by (simp add: noEmptyEntry_def list_all_iff)

lemma noEmptyEntry_replace:
  "noEmptyEntry w \<Longrightarrow> vs \<noteq> [] \<Longrightarrow>
   noEmptyEntry (w'\<lparr>store := filter P (store w) @ [(a, \<lparr>entry_values = vs\<rparr>)]\<rparr>)"
  by (simp add: noEmptyEntry_def list_all_iff)

lemma noEmptyEntry_removeByAssociation:
  "noEmptyEntry w \<Longrightarrow> noEmptyEntry (snd (removeByAssociation a w))"
  by (simp add: removeByAssociation_eq noEmptyEntry_filter split: option.splits)

lemma noEmptyEntry_saveValuesForKey:
  "noEmptyEntry w \<Longrightarrow> vs \<noteq> [] \<Longrightarrow> noEmptyEntry (snd (saveValuesForKey lc k vs w))"
  by (simp add: saveValuesForKey_eq noEmptyEntry_filter noEmptyEntry_replace split: option.splits)

lemma snd_case_result [simp]:
  "snd (case p of (Inl e, w') \<Rightarrow> (a, w') | (Inr u, w') \<Rightarrow> (b, w')) = snd p"
  by (cases p; cases "fst p") auto

lemma noEmptyEntry_addValueToKey:
  assumes "noEmptyEntry w"
  shows "noEmptyEntry (snd (addValueToKey lc k v user w))"
proof -
  let ?vs = "existingValues lc k w @
      [\<lparr>gvalue = trim v, createdAt = clock w (ticks w), createdBy = getUserEmail user\<rparr>]"
  have "noEmptyEntry (snd (saveValuesForKey lc k ?vs ((advance w)\<lparr>ticks := ticks w + 1\<rparr>)))"
    by (rule noEmptyEntry_saveValuesForKey) (simp_all add: assms)
  then show ?thesis
    using assms by (simp add: addValueToKey_eq)
qed

lemma noEmptyEntry_removeKey:
  "noEmptyEntry w \<Longrightarrow> noEmptyEntry (snd (removeKey lc k w))"
  by (simp add: removeKey_eq noEmptyEntry_filter split: option.splits)

lemma noEmptyEntry_removeValueForKey:
  assumes "noEmptyEntry w"
  shows "noEmptyEntry (snd (removeValueForKey lc k v w))"
proof -
  have 1: "noEmptyEntry (snd (removeByAssociation (normalizeKey lc k) (advance w)))"
    by (rule noEmptyEntry_removeByAssociation) (simp add: assms)
  have 2: "\<And>vs. vs \<noteq> [] \<Longrightarrow> noEmptyEntry (snd (saveValuesForKey lc k vs (advance w)))"
    by (rule noEmptyEntry_saveValuesForKey) (simp_all add: assms)
  show ?thesis
    using assms 1 2
    by (simp add: removeValueForKey_eq split: option.splits)
qed

lemma removeValueForKey_last:
  assumes e: "fst (getEntryForKey lc k w) = Some [item]"
    and r: "removeValueForKey lc k v w = (True, w')"
  shows "storedRecords (normalizeKey lc k) w' = []"
proof -
  from e have valid: "isValidKey lc k" and nf: "nextFault w = None" and sv: "storedValues lc k w = Some [item]"
    by (auto simp: getEntryForKey_eq split: if_splits option.splits)
  from r valid nf sv have k: "keepOthers lc v [item] = []"
    by (cases "keepOthers lc v [item]") (auto simp: removeValueForKey_eq keepOthers_def split: if_splits)
  from r valid nf sv k have "removeByAssociation (normalizeKey lc k) (advance w) = (Inr (), w')"
    by (auto simp: removeValueForKey_eq split: if_splits prod.splits sum.splits)
  then show ?thesis
    by (auto simp: removeByAssociation_eq split: option.splits)
qed

lemma getEntryForKey_absent:
  "storedRecords (normalizeKey lc k) w = [] \<Longrightarrow> fst (getEntryForKey lc k w) = None"
  by (simp add: getEntryForKey_eq storedValues_def split: option.splits)

section \<open>Dispatch: basic facts\<close>

lemmas eval_string = js_def trim_def trimStart_def trimEnd_def isWhiteSpace_def startsWith_def
  charAt_def COMMAND_PREFIX_def substringFrom_def substring_def asciiLowerCase_def asciiLowerUnit_def
  COMMANDS.simps

lemma messageText_says [simp]: "messageText (says t) = trim t"
  by (simp add: messageText_def says_def)

lemma shouldProcessMessage_says:
  "trim t \<noteq> [] \<Longrightarrow> appUser w = Inr (Some glossaryBot) \<Longrightarrow> shouldProcessMessage (says t) w = Inr True"
  by (simp add: shouldProcessMessage_def messageText_def)
     (simp add: says_def directRoom_def ROOM_TYPE_DIRECT_def alice_def glossaryBot_def js_def)

lemma executePostMessageSent_search:
  "shouldProcessMessage message w = Inr True \<Longrightarrow> getCommandType (messageText message) = None \<Longrightarrow>
   executePostMessageSent lc message w = (None, handleKeySearch lc (messageText message) (room message) w)"
  by (simp add: executePostMessageSent_def)

lemma executePostMessageSent_command:
  "shouldProcessMessage message w = Inr True \<Longrightarrow> getCommandType (messageText message) = Some c \<Longrightarrow>
   executePostMessageSent lc message w = (None, executeCommand lc c message w)"
  by (simp add: executePostMessageSent_def)

lemma asciiLowerCase_command [simp]: "asciiLowerCase (COMMANDS c) = COMMANDS c"
  by (cases c) (simp_all add: COMMANDS.simps asciiLowerCase_def asciiLowerUnit_def js_def)

lemma asciiLowerCase_prefix [simp]: "asciiLowerCase COMMAND_PREFIX = COMMAND_PREFIX"
  by (simp add: asciiLowerCase_def asciiLowerUnit_def js_def COMMAND_PREFIX_def)

lemma isAscii_command [simp]: "list_all isAscii (COMMANDS c)" "list_all isAscii COMMAND_PREFIX"
  by (cases c; simp add: COMMANDS.simps isAscii_def js_def COMMAND_PREFIX_def)+

lemma isAscii_asciiLowerCase: "list_all isAscii (asciiLowerCase w) \<Longrightarrow> list_all isAscii w"
  by (induction w) (auto simp: asciiLowerCase_def asciiLowerUnit_def isAscii_def split: if_splits)

lemma messageText_trimmed [simp]: "trim (messageText message) = messageText message"
  by (simp add: messageText_def)

lemma spelling_not_matched:
  assumes t: "trim text = COMMAND_PREFIX @ word @ rest"
    and l: "asciiLowerCase word = COMMANDS c" and n: "word \<noteq> COMMANDS c"
  shows "\<not> matchesCommand text (COMMANDS c')"
proof
  assume "matchesCommand text (COMMANDS c')"
  then obtain rest' where r: "trim text = COMMAND_PREFIX @ COMMANDS c' @ rest'"
    unfolding matchesCommand_iff by blast
  with t have e: "word @ rest = COMMANDS c' @ rest'" by simp
  then have "asciiLowerCase (word @ rest) = asciiLowerCase (COMMANDS c' @ rest')" by simp
  then have "COMMANDS c @ asciiLowerCase rest = COMMANDS c' @ asciiLowerCase rest'"
    by (simp add: asciiLowerCase_append l)
  then have "COMMAND_PREFIX @ COMMANDS c @ asciiLowerCase rest =
      COMMAND_PREFIX @ COMMANDS c' @ asciiLowerCase rest'" by simp
  then have "c = c'" by (rule command_word_unique [OF refl])
  moreover have "length word = length (COMMANDS c)"
    using l by (metis asciiLowerCase_length)
  ultimately have "word = COMMANDS c" using e by simp
  with n show False by contradiction
qed

lemma extractCommandPayload_spelling:
  assumes lc: "lowerCaseLike lc"
    and t: "trim text = COMMAND_PREFIX @ word @ rest"
    and l: "asciiLowerCase word = cmd" and a: "list_all isAscii word"
  shows "extractCommandPayload lc text cmd = trim rest"
proof -
  have "length word = length cmd" using l by (metis asciiLowerCase_length)
  moreover obtain s' where "lc ((COMMAND_PREFIX @ word) @ rest) = asciiLowerCase (COMMAND_PREFIX @ word) @ s'"
    using lowerCaseLike_prefix [OF lc, of "COMMAND_PREFIX @ word" rest] a by auto
  then have "startsWith (lc (trim text)) (COMMAND_PREFIX @ cmd)"
    unfolding startsWith_iff t by (auto simp: asciiLowerCase_append l)
  ultimately show ?thesis
    by (simp add: extractCommandPayload_def Let_def t substringFrom_def)
qed

section \<open>The handlers keep the invariant\<close>

lemma sendMessage_frame [simp]:
  "store (sendMessage r t w) = store w" "faults (sendMessage r t w) = faults w"
  "ticks (sendMessage r t w) = ticks w" "clock (sendMessage r t w) = clock w"
  "noEmptyEntry (sendMessage r t w) = noEmptyEntry w"
  by (simp_all add: sendMessage_def)

lemma snd_getEntryForKey: "snd (getEntryForKey lc k w) = (if isValidKey lc k then advance w else w)"
  by (simp add: getEntryForKey_eq)

lemma noEmptyEntry_getEntryForKey [simp]: "noEmptyEntry (snd (getEntryForKey lc k w)) = noEmptyEntry w"
  by (simp add: snd_getEntryForKey)

lemma noEmptyEntry_multiAdd_loop:
  "noEmptyEntry w \<Longrightarrow> noEmptyEntry (snd (multiAdd_loop lc pairs user counts w))"
proof (induction lc pairs user counts w rule: multiAdd_loop.induct)
  case (1 lc user counts w)
  then show ?case by simp
next
  case (2 lc pair pairs user nadded duplicates errors w)
  obtain result w1 where a: "addValueToKey lc (key pair) (val pair) user w = (result, w1)"
    by (cases "addValueToKey lc (key pair) (val pair) user w")
  have "noEmptyEntry (snd (addValueToKey lc (key pair) (val pair) user w))"
    using "2.prems" by (rule noEmptyEntry_addValueToKey)
  then have "noEmptyEntry w1" by (simp add: a)
  with 2 a show ?case by simp
qed

lemma noEmptyEntry_handleAddCommand:
  assumes "noEmptyEntry w"
  shows "noEmptyEntry (handleAddCommand lc message w)"
proof (cases "parseKeyValue lc (extractCommandPayload lc (messageText message) (COMMANDS ADD))")
  case None
  with assms show ?thesis by (simp add: handleAddCommand_def)
next
  case (Some pair)
  obtain result w1 where a: "addValueToKey lc (key pair) (val pair) (sender message) w = (result, w1)"
    by (cases "addValueToKey lc (key pair) (val pair) (sender message) w")
  from noEmptyEntry_addValueToKey [OF assms, of lc "key pair" "val pair" "sender message"]
  have "noEmptyEntry w1" by (simp add: a)
  with Some a show ?thesis by (simp add: handleAddCommand_def)
qed

lemma noEmptyEntry_handleMultiAddCommand:
  assumes "noEmptyEntry w"
  shows "noEmptyEntry (handleMultiAddCommand lc message w)"
proof -
  let ?pairs = "parseMultiAdd lc (extractCommandPayload lc (messageText message) (COMMANDS MULTI_ADD))"
  obtain counts w1 where a: "multiAdd_loop lc ?pairs (sender message) (0, 0, 0) w = (counts, w1)"
    by (cases "multiAdd_loop lc ?pairs (sender message) (0, 0, 0) w")
  from noEmptyEntry_multiAdd_loop [OF assms, of lc ?pairs "sender message" "(0, 0, 0)"]
  have "noEmptyEntry w1" by (simp add: a)
  with assms a show ?thesis
    by (simp add: handleMultiAddCommand_def Let_def)
qed

lemma noEmptyEntry_handleRemoveCommand:
  assumes "noEmptyEntry w"
  shows "noEmptyEntry (handleRemoveCommand lc message w)"
proof (cases "parseKeyValue lc (extractCommandPayload lc (messageText message) (COMMANDS REMOVE))")
  case None
  let ?k = "trim (extractCommandPayload lc (messageText message) (COMMANDS REMOVE))"
  obtain removed w1 where a: "removeKey lc ?k w = (removed, w1)"
    by (cases "removeKey lc ?k w")
  from noEmptyEntry_removeKey [OF assms, of lc ?k]
  have "noEmptyEntry w1" by (simp add: a)
  with None assms a show ?thesis
    by (simp add: handleRemoveCommand_def Let_def)
next
  case (Some pair)
  obtain removed w1 where a: "removeValueForKey lc (key pair) (val pair) w = (removed, w1)"
    by (cases "removeValueForKey lc (key pair) (val pair) w")
  from noEmptyEntry_removeValueForKey [OF assms, of lc "key pair" "val pair"]
  have "noEmptyEntry w1" by (simp add: a)
  with Some a show ?thesis by (simp add: handleRemoveCommand_def)
qed

lemma noEmptyEntry_handleDetailsCommand:
  assumes "noEmptyEntry w"
  shows "noEmptyEntry (handleDetailsCommand lc message w)"
proof (cases "parseKeyValue lc (extractCommandPayload lc (messageText message) (COMMANDS DETAILS))")
  case None
  with assms show ?thesis by (simp add: handleDetailsCommand_def)
next
  case (Some pair)
  obtain entry w1 where a: "getEntryForKey lc (key pair) w = (entry, w1)"
    by (cases "getEntryForKey lc (key pair) w")
  from noEmptyEntry_getEntryForKey [of lc "key pair" w] assms
  have "noEmptyEntry w1" by (simp add: a)
  with Some a show ?thesis
    by (simp add: handleDetailsCommand_def Let_def split: option.splits)
qed

lemma noEmptyEntry_handleKeySearch:
  assumes "noEmptyEntry w"
  shows "noEmptyEntry (handleKeySearch lc k r w)"
proof -
  obtain entry w1 where a: "getEntryForKey lc k w = (entry, w1)"
    by (cases "getEntryForKey lc k w")
  from noEmptyEntry_getEntryForKey [of lc k w] assms
  have "noEmptyEntry w1" by (simp add: a)
  with assms a show ?thesis
    by (simp add: handleKeySearch_def getValuesForKey_def sendValuesToUser_def
        split: option.splits)
qed

lemma noEmptyEntry_executePostMessageSent:
  "noEmptyEntry w \<Longrightarrow> noEmptyEntry (snd (executePostMessageSent lc message w))"
proof -
  assume a: "noEmptyEntry w"
  have "\<And>c. noEmptyEntry (executeCommand lc c message w)"
  proof -
    fix c show "noEmptyEntry (executeCommand lc c message w)"
      using a noEmptyEntry_handleAddCommand noEmptyEntry_handleMultiAddCommand
        noEmptyEntry_handleRemoveCommand noEmptyEntry_handleDetailsCommand
      by (cases c) (simp_all add: handleHelpCommand_def)
  qed
  with a noEmptyEntry_handleKeySearch show ?thesis
    by (simp add: executePostMessageSent_def Let_def split: sum.splits bool.splits option.splits)
qed

section \<open>The sample conversation: basic facts\<close>

lemma isValid_API: "isValidKey asciiLowerCase (js ''API'')" "isValidValue asciiLowerCase (js '' rest '')"
  "normalizeKey asciiLowerCase (js ''API'') = js ''api''"
  by (simp_all add: isValidKey_def isValidValue_def normalizeKey_def normalizeValue_def eval_string)

lemma apiWorld_fields:
  "store apiWorld = [(js ''api'', \<lparr>entry_values = [restValue]\<rparr>)]" "faults apiWorld = []"
  "outbox apiWorld = []" "ticks apiWorld = 1" "clock apiWorld = sampleClock"
  "toLocaleString apiWorld = sampleLocale" "appUser apiWorld = Inr (Some glossaryBot)"
  by (simp_all add: apiWorld_def freshWorld_def)

lemma apiWorld_next [simp]: "nextFault apiWorld = None" "advance apiWorld = apiWorld"
  by (simp_all add: nextFault_def advance_def apiWorld_fields)

lemma apiWorld_stored:
  "storedRecords (js ''api'') apiWorld = [\<lparr>entry_values = [restValue]\<rparr>]"
  "storedValues asciiLowerCase (js ''API'') apiWorld = Some [restValue]"
  by (simp_all add: storedRecords_def storedValues_def apiWorld_fields isValid_API)

section \<open>Adding a value: basic facts\<close>

lemma storedValues_replaced:
  "vs \<noteq> [] \<Longrightarrow>
   storedValues lc k (w\<lparr>store := filter (\<lambda>r. fst r \<noteq> normalizeKey lc k) st @ [(normalizeKey lc k, \<lparr>entry_values = vs\<rparr>)]\<rparr>)
     = Some vs"
  by (simp add: storedValues_def storedRecords_replaced)

lemma addValueToKey_added:
  assumes a: "addValueToKey lc k v user w = (r, w1)" and r: "added r"
  shows "isValidKey lc k \<and> isValidValue lc v \<and> \<not> hasValue lc v (existingValues lc k w) \<and>
         storedRecords (normalizeKey lc k) w1 =
           [\<lparr>entry_values = existingValues lc k w @
               [\<lparr>gvalue = trim v, createdAt = clock w (ticks w), createdBy = getUserEmail user\<rparr>]\<rparr>]"
proof -
  let ?vs = "existingValues lc k w @
      [\<lparr>gvalue = trim v, createdAt = clock w (ticks w), createdBy = getUserEmail user\<rparr>]"
  from a r have v: "isValidKey lc k" "isValidValue lc v" and d: "\<not> hasValue lc v (existingValues lc k w)"
    by (auto simp: addValueToKey_eq split: if_splits)
  from a r v d have s: "saveValuesForKey lc k ?vs ((advance w)\<lparr>ticks := ticks w + 1\<rparr>) = (Inr (), w1)"
    by (auto simp: addValueToKey_eq split: prod.splits sum.splits)
  then have "storedRecords (normalizeKey lc k) w1 = [\<lparr>entry_values = ?vs\<rparr>]"
    using v by (auto simp: saveValuesForKey_eq storedRecords_replaced split: option.splits)
  with v d show ?thesis by blast
qed



section \<open>Replies and faults: basic facts\<close>

lemma nonblank: "c \<in> set t \<Longrightarrow> \<not> isWhiteSpace c \<Longrightarrow> trim t \<noteq> []"
  by (auto simp: trim_eq_Nil)

lemma sendMessage_nonblank:
  "trim t \<noteq> [] \<Longrightarrow> sendMessage r t w = w\<lparr>outbox := outbox w @ [(r, t)]\<rparr>"
  by (simp add: sendMessage_def)

lemma not_ws_marks [simp]: "\<not> isWhiteSpace 0x274C" "\<not> isWhiteSpace 0x2705" "\<not> isWhiteSpace 0x2A"
  by (simp_all add: isWhiteSpace_def)

lemma SAVE_ERROR_nonblank: "trim SAVE_ERROR \<noteq> []"
  by (rule nonblank [of "0x274C"]) (simp_all add: SAVE_ERROR_def)

lemma VALUE_ADDED_nonblank: "trim (VALUE_ADDED k v) \<noteq> []"
  by (rule nonblank [of "0x2705"]) (simp_all add: VALUE_ADDED_def)

lemma DUPLICATE_VALUE_nonblank: "trim (DUPLICATE_VALUE k) \<noteq> []"
  by (rule nonblank [of "0x274C"]) (simp_all add: DUPLICATE_VALUE_def)

lemma getEntryForKey_read_fault:
  "nextFault w = Some e \<Longrightarrow> fst (getEntryForKey lc k w) = None"
  by (simp add: getEntryForKey_eq)

lemma addValueToKey_write_fault:
  assumes v: "isValidKey lc k" "isValidValue lc v" and d: "\<not> hasValue lc v (existingValues lc k w)"
    and f: "nextFault (advance w) = Some e \<or>
            (nextFault (advance w) = None \<and> nextFault (advance (advance w)) = Some e)"
  shows "fst (addValueToKey lc k v user w) = Error"
  using v d f by (auto simp: addValueToKey_eq saveValuesForKey_eq Error_def split: option.splits)

lemma handleAddCommand_eq:
  assumes "parseKeyValue lc (extractCommandPayload lc (messageText message) (COMMANDS ADD)) = Some pair"
    and "addValueToKey lc (key pair) (val pair) (sender message) w = (result, w1)"
  shows "handleAddCommand lc message w =
           w1\<lparr>outbox := outbox w1 @
              [(room message,
                if added result then VALUE_ADDED (key pair) (val pair)
                else if reason result = Some duplicate then DUPLICATE_VALUE (key pair)
                else SAVE_ERROR)]\<rparr>"
  using assms
  by (simp add: handleAddCommand_def sendMessage_nonblank SAVE_ERROR_nonblank
      VALUE_ADDED_nonblank DUPLICATE_VALUE_nonblank)

section \<open>The sample conversation: adding under faults\<close>

lemmas eval_parse = parseKeyValue_def extractCommandPayload_def indexOf_def isValidKey_def
  isValidValue_def normalizeKey_def normalizeValue_def Let_def eval_string

lemma parse_add_API_SOAP:
  "parseKeyValue asciiLowerCase (extractCommandPayload asciiLowerCase (messageText (says (js ''!add API:SOAP''))) (COMMANDS ADD))
     = Some \<lparr>key = js ''API'', val = js ''SOAP''\<rparr>"
  by (simp add: eval_parse)

lemma SOAP_facts: "isValidValue asciiLowerCase (js ''SOAP'')" "trim (js ''SOAP'') = js ''SOAP''"
  "\<not> hasValue asciiLowerCase (js ''SOAP'') [restValue]" "\<not> hasValue asciiLowerCase (js ''SOAP'') []"
  "getUserEmail alice = js ''alice@example.org''"
  by (simp_all add: isValidValue_def normalizeValue_def hasValue_def restValue_def eval_string
      getUserEmail_def alice_def)

lemma readFaultWorld_facts:
  "nextFault readFaultWorld = Some (Fault (js ''connection lost''))"
  "advance readFaultWorld = apiWorld"
  "existingValues asciiLowerCase (js ''API'') readFaultWorld = []"
  "ticks readFaultWorld = 1" "clock readFaultWorld = sampleClock"
  by (simp_all add: readFaultWorld_def nextFault_def advance_def existingValues_def apiWorld_def
      freshWorld_def)

lemma writeFaultWorld_facts:
  "nextFault writeFaultWorld = None"
  "nextFault (advance writeFaultWorld) = Some (Fault (js ''connection lost''))"
  "existingValues asciiLowerCase (js ''API'') writeFaultWorld = [restValue]"
  "outbox writeFaultWorld = []"
  by (simp_all add: writeFaultWorld_def nextFault_def advance_def existingValues_def
      storedValues_def storedRecords_def isValid_API apiWorld_def freshWorld_def)

section \<open>Multi-add: basic facts\<close>









lemma numberToString_digit: "n < 10 \<Longrightarrow> numberToString n = [0x30 + n]"
  by (simp add: numberToString.simps)

section \<open>Key search: basic facts\<close>

lemma getValuesForKey_eq:
  "getValuesForKey lc k w =
     (if \<not> isValidKey lc k then (None, w)
      else ((case nextFault w of
               Some e \<Rightarrow> None
             | None \<Rightarrow> map_option (\<lambda>entry. filter (\<lambda>v. v \<noteq> []) (map gvalue entry))
                         (storedValues lc k w)), advance w))"
  by (simp add: getValuesForKey_def getEntryForKey_eq split: option.splits)

lemma numbered_lines:
  "map (\<lambda>(index, v). numberToString (index + 1) @ js ''. '' @ v) (enumerate 0 vs) =
   map (\<lambda>i. numberToString (i + 1) @ js ''. '' @ vs ! i) [0..<length vs]"
  by (rule nth_equalityI) (simp_all add: nth_enumerate_eq)

lemma formatValuesForDisplay_one:
  "formatValuesForDisplay k [v] = LABEL_KEY @ k @ LABEL_VALUE @ v"
  by (simp add: formatValuesForDisplay_def)

lemma formatValuesForDisplay_many:
  "length vs \<noteq> 1 \<Longrightarrow>
   formatValuesForDisplay k vs =
     LABEL_KEY @ k @ LABEL_VALUES (length vs)
     @ joinWith [0x0A] (map (\<lambda>i. numberToString (i + 1) @ js ''. '' @ vs ! i) [0..<length vs])"
  unfolding formatValuesForDisplay_def Let_def numbered_lines by simp

lemma LABEL_KEY_nonblank: "trim (LABEL_KEY @ t) \<noteq> []"
  by (rule nonblank [of "0x2A"]) (simp_all add: LABEL_KEY_def js_def)

lemma formatValuesForDisplay_nonblank: "trim (formatValuesForDisplay k vs) \<noteq> []"
  by (simp add: formatValuesForDisplay_def Let_def LABEL_KEY_nonblank)

lemma KEY_NOT_FOUND_SEARCH_nonblank: "trim (KEY_NOT_FOUND_SEARCH k) \<noteq> []"
  by (rule nonblank [of "0x417"]) (simp_all add: KEY_NOT_FOUND_SEARCH_def isWhiteSpace_def)

lemma KEY_NOT_FOUND_SEARCH_syntax:
  "\<exists>pre post. KEY_NOT_FOUND_SEARCH k = pre @ js ''!add '' @ k @ js '': <'' @ post @ js ''>'' @ [0x60]"
proof -
  let ?pre =
    "[0x417, 0x43D, 0x430, 0x447, 0x435, 0x43D, 0x438, 0x435] @ js '' '' @ [0x434, 0x43B, 0x44F]
     @ js '' '' @ [0x43A, 0x43B, 0x44E, 0x447, 0x430] @ js '' '' @ [0x22] @ js ''*''
     @ k @
     js ''*'' @ [0x22] @ js '' '' @ [0x43D, 0x435] @ js '' ''
     @ [0x43D, 0x430, 0x439, 0x434, 0x435, 0x43D, 0x43E] @ js ''.''
     @ [0xA, 0xA, 0x427, 0x442, 0x43E, 0x431, 0x44B] @ js '' ''
     @ [0x434, 0x43E, 0x431, 0x430, 0x432, 0x438, 0x442, 0x44C] @ js '' ''
     @ [0x437, 0x43D, 0x430, 0x447, 0x435, 0x43D, 0x438, 0x435] @ js '', ''
     @ [0x438, 0x441, 0x43F, 0x43E, 0x43B, 0x44C, 0x437, 0x443, 0x439, 0x442, 0x435] @ js '' ''
     @ [0x43A, 0x43E, 0x43C, 0x430, 0x43D, 0x434, 0x443] @ js '':'' @ [0xA, 0x60]"
  let ?post =
    "[0x432, 0x430, 0x448, 0x435] @ js '' ''
     @ [0x437, 0x43D, 0x430, 0x447, 0x435, 0x43D, 0x438, 0x435]"
  have "KEY_NOT_FOUND_SEARCH k = ?pre @ js ''!add '' @ k @ js '': <'' @ ?post @ js ''>'' @ [0x60]"
    by (simp add: KEY_NOT_FOUND_SEARCH_def)
  then show ?thesis by blast
qed

lemma handleKeySearch_eq:
  assumes "isValidKey lc k" and "getValuesForKey lc k w = (found, w1)"
  shows "handleKeySearch lc k r w =
           w1\<lparr>outbox := outbox w1 @
              [(r, case found of
                     None \<Rightarrow> KEY_NOT_FOUND_SEARCH k
                   | Some vs \<Rightarrow> if vs = [] then KEY_NOT_FOUND_SEARCH k
                               else formatValuesForDisplay k vs)]\<rparr>"
  using assms
  by (simp add: handleKeySearch_def sendValuesToUser_def sendMessage_nonblank
      formatValuesForDisplay_nonblank KEY_NOT_FOUND_SEARCH_nonblank split: option.splits)

lemma shouldProcessMessage_text:
  "shouldProcessMessage message w = Inr True \<Longrightarrow> messageText message \<noteq> []"
  by (auto simp: shouldProcessMessage_def split: if_splits sum.splits option.splits)

lemma isValidKey_messageText:
  "lowerCaseLike lc \<Longrightarrow> shouldProcessMessage message w = Inr True \<Longrightarrow>
   isValidKey lc (messageText message)"
  using shouldProcessMessage_text by (simp add: isValidKey_iff)

section \<open>The sample conversation: searching\<close>

lemma world_facts:
  "nextFault freshWorld = None" "advance freshWorld = freshWorld" "outbox freshWorld = []"
  "appUser freshWorld = Inr (Some glossaryBot)" "storedValues asciiLowerCase (js ''api'') freshWorld = None"
  "nextFault restSoapWorld = None" "advance restSoapWorld = restSoapWorld"
  "outbox restSoapWorld = []" "appUser restSoapWorld = Inr (Some glossaryBot)"
  "storedValues asciiLowerCase (js ''api'') restSoapWorld = Some [restValue, soapValue]"
  by (simp_all add: nextFault_def advance_def freshWorld_def restSoapWorld_def storedValues_def
      storedRecords_def eval_parse)

lemma search_keys:
  "trim (js ''API'') = js ''API''" "trim (js '' api '') = js ''api''" "trim (js ''api'') = js ''api''"
  "getCommandType (js ''API'') = None" "getCommandType (js ''api'') = None"
  "isValidKey asciiLowerCase (js ''api'')"
  by (simp_all add: getCommandType_def matchesCommand_def isCommand_def eval_parse)

section \<open>Trimming around a core, and the text of a command with a pair\<close>

lemma trimStart_ws_prefix:
  "\<forall>c\<in>set l. isWhiteSpace c \<Longrightarrow> trimStart (l @ s) = trimStart s"
  by (simp add: trimStart_def dropWhile_append2)

lemma ws_chars [simp]: "isWhiteSpace 0x20" "\<not> isWhiteSpace 0x21" "\<not> isWhiteSpace 0x3A"
  by (simp_all add: isWhiteSpace_def)

lemma trimEnd_ws_suffix:
  assumes "\<forall>c\<in>set r. isWhiteSpace c"
  shows "trimEnd (s @ r) = trimEnd s"
proof -
  have "dropWhile isWhiteSpace (rev r @ rev s) = dropWhile isWhiteSpace (rev s)"
    using assms by (subst dropWhile_append2) auto
  then show ?thesis by (simp add: trimEnd_def)
qed

lemma trimStart_core: "c \<noteq> [] \<Longrightarrow> \<not> isWhiteSpace (hd c) \<Longrightarrow> trimStart (c @ r) = c @ r"
  by (cases c) (simp_all add: trimStart_def)

lemma trimEnd_core: "c \<noteq> [] \<Longrightarrow> \<not> isWhiteSpace (last c) \<Longrightarrow> trimEnd (l @ c) = l @ c"
  by (cases c rule: rev_cases) (simp_all add: trimEnd_def)

lemma trim_unique:
  assumes "\<forall>c\<in>set l. isWhiteSpace c" and "\<forall>c\<in>set r. isWhiteSpace c"
    and "c \<noteq> []" and "\<not> isWhiteSpace (hd c)" and "\<not> isWhiteSpace (last c)"
  shows "trim (l @ c @ r) = c"
proof -
  have "trimStart (l @ c @ r) = c @ r"
    using assms by (simp add: trimStart_ws_prefix trimStart_core)
  moreover have "trimEnd (c @ r) = c"
    using assms trimEnd_core [of c "[]"] by (simp add: trimEnd_ws_suffix)
  ultimately show ?thesis by (simp add: trim_def)
qed

lemma trim_decomp:
  "\<exists>l r. s = l @ trim s @ r \<and> (\<forall>c\<in>set l. isWhiteSpace c) \<and> (\<forall>c\<in>set r. isWhiteSpace c)"
proof -
  let ?l = "takeWhile isWhiteSpace s"
  let ?t = "dropWhile isWhiteSpace s"
  let ?r = "rev (takeWhile isWhiteSpace (rev ?t))"
  have "rev ?t = takeWhile isWhiteSpace (rev ?t) @ dropWhile isWhiteSpace (rev ?t)" by simp
  then have "?t = rev (dropWhile isWhiteSpace (rev ?t)) @ ?r"
    by (metis rev_append rev_rev_ident)
  then have "?t = trim s @ ?r" by (simp add: trim_def trimEnd_def trimStart_def)
  moreover have "s = ?l @ ?t" by simp
  ultimately have "s = ?l @ trim s @ ?r" by simp
  moreover have "\<forall>c\<in>set ?l. isWhiteSpace c" by (auto dest: set_takeWhileD)
  moreover have "\<forall>c\<in>set ?r. isWhiteSpace c" by (auto dest: set_takeWhileD)
  ultimately show ?thesis by blast
qed

lemma find_append:
  "find P (xs @ ys) = (case find P xs of None \<Rightarrow> find P ys | Some x \<Rightarrow> Some x)"
  by (induction xs) simp_all

lemma not_hasValue_find:
  "\<not> hasValue lc v xs \<Longrightarrow> find (\<lambda>item. normalizeValue lc (gvalue item) = normalizeValue lc v) xs = None"
  by (auto simp: hasValue_def list_ex_iff find_None_iff)

lemma parse_command_pair:
  assumes lc: "lowerCaseLike lc"
    and x: "0x3A \<notin> set X" "trim X \<noteq> []" and y: "trim Y \<noteq> []"
  shows "parseKeyValue lc
           (extractCommandPayload lc (trim (COMMAND_PREFIX @ COMMANDS c @ js '' '' @ X @ [0x3A] @ Y))
              (COMMANDS c))
         = Some \<lparr>key = trim X, val = trim Y\<rparr>"
proof -
  obtain lX rX where X: "X = lX @ trim X @ rX"
    and lX: "\<forall>c\<in>set lX. isWhiteSpace c" and rX: "\<forall>c\<in>set rX. isWhiteSpace c"
    using trim_decomp [of X] by blast
  obtain lY rY where Y: "Y = lY @ trim Y @ rY"
    and lY: "\<forall>c\<in>set lY. isWhiteSpace c" and rY: "\<forall>c\<in>set rY. isWhiteSpace c"
    using trim_decomp [of Y] by blast
  let ?cX = "trim X" and ?cY = "trim Y"
  let ?rest = "js '' '' @ lX @ ?cX @ rX @ [0x3A] @ lY @ ?cY"
  have hX: "\<not> isWhiteSpace (hd ?cX)" and tX: "\<not> isWhiteSpace (last ?cX)"
    using x(2) trim_hd trim_last by blast+
  have hY: "\<not> isWhiteSpace (hd ?cY)" and tY: "\<not> isWhiteSpace (last ?cY)"
    using y trim_hd trim_last by blast+
  have "trim ([] @ (COMMAND_PREFIX @ COMMANDS c @ ?rest) @ rY) = COMMAND_PREFIX @ COMMANDS c @ ?rest"
    by (rule trim_unique) (simp_all add: rY y tY COMMAND_PREFIX_def js_def)
  moreover have "COMMAND_PREFIX @ COMMANDS c @ js '' '' @ X @ [0x3A] @ Y =
      [] @ (COMMAND_PREFIX @ COMMANDS c @ ?rest) @ rY"
    by (subst X, subst Y) simp
  ultimately have t: "trim (COMMAND_PREFIX @ COMMANDS c @ js '' '' @ X @ [0x3A] @ Y) =
      COMMAND_PREFIX @ COMMANDS c @ ?rest" by simp
  have "trim ((js '' '' @ lX) @ (?cX @ rX @ [0x3A] @ lY @ ?cY) @ []) = ?cX @ rX @ [0x3A] @ lY @ ?cY"
    by (rule trim_unique) (simp_all add: lX x(2) hX y tY js_def)
  then have r: "trim ?rest = (?cX @ rX) @ 0x3A # (lY @ ?cY)" by simp
  have p: "extractCommandPayload lc (trim (COMMAND_PREFIX @ COMMANDS c @ js '' '' @ X @ [0x3A] @ Y))
      (COMMANDS c) = (?cX @ rX) @ 0x3A # (lY @ ?cY)"
    unfolding r [symmetric]
  proof (rule extractCommandPayload_spelling [OF lc, of _ "COMMANDS c"])
    show "trim (trim (COMMAND_PREFIX @ COMMANDS c @ js '' '' @ X @ [0x3A] @ Y)) =
        COMMAND_PREFIX @ COMMANDS c @ ?rest"
      unfolding trim_idem by (rule t)
    show "asciiLowerCase (COMMANDS c) = COMMANDS c" by simp
    show "list_all isAscii (COMMANDS c)" by simp
  qed
  have nc: "0x3A \<notin> set (?cX @ rX)"
    using x(1) by (subst (asm) X) simp
  have k: "trim ([] @ ?cX @ rX) = ?cX"
    by (rule trim_unique) (simp_all add: rX x(2) hX tX)
  have v: "trim (lY @ ?cY @ []) = ?cY"
    by (rule trim_unique) (simp_all add: lY y hY tY)
  show ?thesis
    unfolding p parseKeyValue_colon [OF nc lc] using k v x(2) y by simp
qed

section \<open>Details: basic facts\<close>

lemma command_text_matches:
  assumes y: "trim Y \<noteq> []"
  shows "matchesCommand (trim (COMMAND_PREFIX @ COMMANDS c @ js '' '' @ X @ [0x3A] @ Y)) (COMMANDS c)"
proof -
  obtain lY rY where Y: "Y = lY @ trim Y @ rY"
    and rY: "\<forall>c\<in>set rY. isWhiteSpace c"
    using trim_decomp [of Y] by blast
  let ?rest = "js '' '' @ X @ [0x3A] @ lY @ trim Y"
  have tY: "\<not> isWhiteSpace (last (trim Y))" using y trim_last by blast
  have "trim ([] @ (COMMAND_PREFIX @ COMMANDS c @ ?rest) @ rY) = COMMAND_PREFIX @ COMMANDS c @ ?rest"
    by (rule trim_unique) (simp_all add: rY y tY COMMAND_PREFIX_def js_def)
  moreover have "COMMAND_PREFIX @ COMMANDS c @ js '' '' @ X @ [0x3A] @ Y =
      [] @ (COMMAND_PREFIX @ COMMANDS c @ ?rest) @ rY"
    by (subst Y) simp
  ultimately have t: "trim (COMMAND_PREFIX @ COMMANDS c @ js '' '' @ X @ [0x3A] @ Y) =
      COMMAND_PREFIX @ COMMANDS c @ ?rest" by simp
  have h: "?rest = [] \<or> isWhiteSpace (hd ?rest)" by (simp add: js_def)
  show ?thesis unfolding matchesCommand_iff trim_idem using t h by blast
qed

lemma KEY_NOT_FOUND_nonblank: "trim (KEY_NOT_FOUND k) \<noteq> []"
  by (rule nonblank [of "0x274C"]) (simp_all add: KEY_NOT_FOUND_def)

lemma VALUE_NOT_FOUND_nonblank: "trim (VALUE_NOT_FOUND k v) \<noteq> []"
  by (rule nonblank [of "0x274C"]) (simp_all add: VALUE_NOT_FOUND_def)

lemma handleDetailsCommand_found:
  assumes "parseKeyValue lc (extractCommandPayload lc (messageText message) (COMMANDS DETAILS)) = Some pair"
    and "getEntryForKey lc (key pair) w = (Some entry, w1)"
    and "find (\<lambda>item. normalizeValue lc (gvalue item) = normalizeValue lc (val pair)) entry = Some valueInfo"
  shows "handleDetailsCommand lc message w =
           w1\<lparr>outbox := outbox w1 @
              [(room message,
                LABEL_KEY @ key pair @ LABEL_VALUE @ gvalue valueInfo
                @ LABEL_ADDED @ formatDate (toLocaleString w1) (createdAt valueInfo)
                @ LABEL_AUTHOR @ createdBy valueInfo)]\<rparr>"
  using assms
  by (simp add: handleDetailsCommand_def Let_def sendMessage_nonblank LABEL_KEY_nonblank)

lemma handleDetailsCommand_no_key:
  assumes "parseKeyValue lc (extractCommandPayload lc (messageText message) (COMMANDS DETAILS)) = Some pair"
    and "fst (getEntryForKey lc (key pair) w) = None"
  shows "outbox (handleDetailsCommand lc message w) = outbox w @ [(room message, KEY_NOT_FOUND (key pair))]"
proof -
  obtain w1 where g: "getEntryForKey lc (key pair) w = (None, w1)"
    using assms(2) by (cases "getEntryForKey lc (key pair) w") simp
  have "outbox w1 = outbox w"
    using snd_getEntryForKey [of lc "key pair" w] g by (simp split: if_splits)
  with assms(1) g show ?thesis
    by (simp add: handleDetailsCommand_def sendMessage_nonblank KEY_NOT_FOUND_nonblank)
qed

lemma handleDetailsCommand_no_value:
  assumes "parseKeyValue lc (extractCommandPayload lc (messageText message) (COMMANDS DETAILS)) = Some pair"
    and "fst (getEntryForKey lc (key pair) w) = Some entry"
    and "\<not> hasValue lc (val pair) entry"
  shows "outbox (handleDetailsCommand lc message w) =
           outbox w @ [(room message, VALUE_NOT_FOUND (key pair) (val pair))]"
proof -
  obtain w1 where g: "getEntryForKey lc (key pair) w = (Some entry, w1)"
    using assms(2) by (cases "getEntryForKey lc (key pair) w") simp
  have "outbox w1 = outbox w"
    using snd_getEntryForKey [of lc "key pair" w] g by (simp split: if_splits)
  with assms(1) g not_hasValue_find [OF assms(3)] show ?thesis
    by (simp add: handleDetailsCommand_def Let_def sendMessage_nonblank VALUE_NOT_FOUND_nonblank)
qed

section \<open>The sample conversation: details\<close>

lemma add_API_REST: "addValueToKey asciiLowerCase (js ''API'') (js ''REST'') alice freshWorld = (Added, apiWorld)"
proof -
  have t: "trim (js ''REST'') = js ''REST''" "isValidValue asciiLowerCase (js ''REST'')"
    "storedValues asciiLowerCase (js ''API'') freshWorld = None"
    by (simp_all add: eval_parse storedValues_def storedRecords_def freshWorld_def)
  show ?thesis
    by (simp add: addValueToKey_eq isValid_API t existingValues_def world_facts hasValue_def
        saveValuesForKey_eq Added_def SOAP_facts)
       (simp add: apiWorld_def freshWorld_def restValue_def)
qed

lemma parse_details:
  "parseKeyValue asciiLowerCase (extractCommandPayload asciiLowerCase (messageText (says (js ''!details API:REST''))) (COMMANDS DETAILS))
     = Some \<lparr>key = js ''API'', val = js ''REST''\<rparr>"
  "parseKeyValue asciiLowerCase (extractCommandPayload asciiLowerCase (messageText (says (js ''!details API:SOAP''))) (COMMANDS DETAILS))
     = Some \<lparr>key = js ''API'', val = js ''SOAP''\<rparr>"
  by (simp_all add: eval_parse)

lemma add_API_REST_later:
  "addValueToKey asciiLowerCase (js ''API'') (js ''REST'') alice laterFaultWorld = (Added, readFaultWorld)"
proof -
  have f: "nextFault laterFaultWorld = None" "nextFault (advance laterFaultWorld) = None"
    "nextFault (advance (advance laterFaultWorld)) = None"
    "storedValues asciiLowerCase (js ''API'') laterFaultWorld = None"
    "ticks laterFaultWorld = 0" "clock laterFaultWorld = sampleClock" "store laterFaultWorld = []"
    by (simp_all add: laterFaultWorld_def freshWorld_def nextFault_def advance_def storedValues_def
        storedRecords_def)
  have t: "trim (js ''REST'') = js ''REST''" "isValidValue asciiLowerCase (js ''REST'')"
    by (simp_all add: eval_parse)
  show ?thesis
    by (simp add: addValueToKey_eq isValid_API t existingValues_def f hasValue_def
        saveValuesForKey_eq Added_def SOAP_facts)
       (simp add: readFaultWorld_def apiWorld_def laterFaultWorld_def freshWorld_def restValue_def
        advance_def)
qed

lemma details_text:
  "msg_text (says (js ''!details API:REST'')) =
     Some (js ''!details '' @ js ''API'' @ js '':'' @ js ''REST'')"
  "0x3A \<notin> set (js ''API'')"
  by (simp_all add: says_def js_def)

lemma details_command:
  "getCommandType (messageText (says (js ''!details API:REST''))) = Some DETAILS"
  by (simp add: getCommandType_def matchesCommand_def isCommand_def Let_def eval_string)

lemma shouldProcess_details:
  "shouldProcessMessage (says (js ''!details API:REST'')) apiWorld = Inr True"
  "shouldProcessMessage (says (js ''!details API:REST'')) readFaultWorld = Inr True"
  by (rule shouldProcessMessage_says; simp add: eval_string apiWorld_def readFaultWorld_def freshWorld_def)+

lemma add_API_SOAP:
  "addValueToKey asciiLowerCase (js ''API'') (js ''SOAP'') alice apiWorld = (Added, restSoapWorld)"
proof -
  have e: "existingValues asciiLowerCase (js ''API'') apiWorld = [restValue]"
    by (simp add: existingValues_def apiWorld_stored)
  show ?thesis
    by (simp add: addValueToKey_eq isValid_API SOAP_facts e saveValuesForKey_eq Added_def)
       (simp add: apiWorld_def restSoapWorld_def freshWorld_def soapValue_def)
qed

section \<open>Key:value pair parsing\<close>

text \<open>
  C4. \<open>parseKeyValue\<close> cuts the text at its first colon (code unit \<open>0x3A\<close>). Without a
  colon the result is none, whatever the lower-casing; the rest is for every lower-casing
  function with the property \<open>lowerCaseLike\<close>. With a first colon between \<open>a\<close> and \<open>b\<close>, the result is none
  when the colon is the first character or when either side trims to the empty string,
  and otherwise the pair of the two trimmed sides. The earlier revision of the function
  returns the same on every input.
\<close>

theorem parseKeyValue_spec:
  "(0x3A \<notin> set text \<longrightarrow> parseKeyValue lc text = None) \<and>
   (lowerCaseLike lc \<longrightarrow>
      (\<forall>a b. text = a @ 0x3A # b \<and> 0x3A \<notin> set a \<longrightarrow>
         parseKeyValue lc text =
           (if a = [] \<or> trim a = [] \<or> trim b = [] then None
            else Some \<lparr>key = trim a, val = trim b\<rparr>)) \<and>
      parseKeyValue_part_000 text = parseKeyValue lc text)"
  using parseKeyValue_no_colon parseKeyValue_colon parseKeyValue_part_000_eq by blast

theorem parseKeyValue_spec_witness:
  "lowerCaseLike asciiLowerCase \<and>
   0x3A \<notin> set (js ''no colon'') \<and> parseKeyValue asciiLowerCase (js ''no colon'') = None \<and>
   parseKeyValue asciiLowerCase (js '' k : v:w '') = Some \<lparr>key = js ''k'', val = js ''v:w''\<rparr> \<and>
   parseKeyValue asciiLowerCase (js '':v'') = None \<and> parseKeyValue asciiLowerCase (js ''k: '') = None \<and>
   parseKeyValue_part_000 (js '' k : v:w '') = Some \<lparr>key = js ''k'', val = js ''v:w''\<rparr>"
proof -
  have ws: "isWhiteSpace 0x20" "\<not> isWhiteSpace 0x6B" "\<not> isWhiteSpace 0x76"
    "\<not> isWhiteSpace 0x77" "\<not> isWhiteSpace 0x3A"
    by (simp_all add: isWhiteSpace_def)
  have 1: "0x3A \<notin> set (js ''no colon'')" by (simp add: js_def)
  with parseKeyValue_spec [of "js ''no colon''" asciiLowerCase]
  have 2: "parseKeyValue asciiLowerCase (js ''no colon'') = None" by blast
  have 3: "js '' k : v:w '' = js '' k '' @ 0x3A # js '' v:w '' \<and> 0x3A \<notin> set (js '' k '')"
    by (simp add: js_def)
  have 4: "trim (js '' k '') = js ''k''" "trim (js '' v:w '') = js ''v:w''"
    using ws by (simp_all add: trim_def trimStart_def trimEnd_def js_def)
  from parseKeyValue_spec [of "js '' k : v:w ''" asciiLowerCase] lowerCaseLike_asciiLowerCase 3
  have "parseKeyValue asciiLowerCase (js '' k : v:w '') =
          (if js '' k '' = [] \<or> trim (js '' k '') = [] \<or> trim (js '' v:w '') = [] then None
           else Some \<lparr>key = trim (js '' k ''), val = trim (js '' v:w '')\<rparr>)"
    by blast
  then have 5: "parseKeyValue asciiLowerCase (js '' k : v:w '') = Some \<lparr>key = js ''k'', val = js ''v:w''\<rparr>"
    unfolding 4 by (simp add: js_def)
  have 6: "js '':v'' = [] @ 0x3A # js ''v'' \<and> 0x3A \<notin> set ([]::nat list)"
    by (simp add: js_def)
  from parseKeyValue_spec [of "js '':v''" asciiLowerCase] lowerCaseLike_asciiLowerCase 6
  have 7: "parseKeyValue asciiLowerCase (js '':v'') = None" by (metis (full_types))
  have 8: "js ''k: '' = js ''k'' @ 0x3A # js '' '' \<and> 0x3A \<notin> set (js ''k'')"
    by (simp add: js_def)
  have 9: "trim (js '' '') = []"
    using ws by (simp add: trim_def trimStart_def trimEnd_def js_def)
  from parseKeyValue_spec [of "js ''k: ''" asciiLowerCase] lowerCaseLike_asciiLowerCase 8
  have "parseKeyValue asciiLowerCase (js ''k: '') =
          (if js ''k'' = [] \<or> trim (js ''k'') = [] \<or> trim (js '' '') = [] then None
           else Some \<lparr>key = trim (js ''k''), val = trim (js '' '')\<rparr>)"
    by blast
  then have 10: "parseKeyValue asciiLowerCase (js ''k: '') = None" unfolding 9 by simp
  from parseKeyValue_spec [of "js '' k : v:w ''" asciiLowerCase] lowerCaseLike_asciiLowerCase 5
  have 11: "parseKeyValue_part_000 (js '' k : v:w '') = Some \<lparr>key = js ''k'', val = js ''v:w''\<rparr>"
    by simp
  from lowerCaseLike_asciiLowerCase 1 2 5 7 10 11 show ?thesis by blast
qed

section \<open>Faults during add: basic facts\<close>

lemma redetail_fields [simp]:
  "store (redetail f w) = store w" "outbox (redetail f w) = outbox w" "ticks (redetail f w) = ticks w"
  "clock (redetail f w) = clock w" "appUser (redetail f w) = appUser w"
  "toLocaleString (redetail f w) = toLocaleString w"
  by (simp_all add: redetail_def)

lemma redetail_update [simp]:
  "redetail f (w\<lparr>store := st\<rparr>) = (redetail f w)\<lparr>store := st\<rparr>"
  "redetail f (w\<lparr>ticks := n\<rparr>) = (redetail f w)\<lparr>ticks := n\<rparr>"
  "redetail f (w\<lparr>outbox := ob\<rparr>) = (redetail f w)\<lparr>outbox := ob\<rparr>"
  by (simp_all add: redetail_def)

lemma nextFault_redetail: "nextFault (redetail f w) = map_option f (nextFault w)"
  by (cases "faults w") (simp_all add: nextFault_def redetail_def)

lemma advance_redetail [simp]: "advance (redetail f w) = redetail f (advance w)"
  by (simp add: advance_def redetail_def map_tl)

lemma storedValues_redetail [simp]: "storedValues lc k (redetail f w) = storedValues lc k w"
  by (simp add: storedValues_def storedRecords_def)

lemma existingValues_redetail [simp]: "existingValues lc k (redetail f w) = existingValues lc k w"
  by (cases "nextFault w") (simp_all add: existingValues_def nextFault_redetail)

lemma saveValuesForKey_redetail:
  "snd (saveValuesForKey lc k vs (redetail f w)) = redetail f (snd (saveValuesForKey lc k vs w)) \<and>
   (isl (fst (saveValuesForKey lc k vs (redetail f w))) \<longleftrightarrow> isl (fst (saveValuesForKey lc k vs w)))"
  by (cases "nextFault w"; cases "nextFault (advance w)")
     (simp_all add: saveValuesForKey_eq nextFault_redetail)

lemma addValueToKey_redetail:
  "addValueToKey lc k v user (redetail f w) =
     (fst (addValueToKey lc k v user w), redetail f (snd (addValueToKey lc k v user w)))"
proof -
  let ?vs = "existingValues lc k w @
      [\<lparr>gvalue = trim v, createdAt = clock w (ticks w), createdBy = getUserEmail user\<rparr>]"
  let ?w = "(advance w)\<lparr>ticks := ticks w + 1\<rparr>"
  from saveValuesForKey_redetail [of lc k ?vs f ?w]
  show ?thesis
    by (cases "saveValuesForKey lc k ?vs ?w"; cases "saveValuesForKey lc k ?vs (redetail f ?w)")
       (auto simp: addValueToKey_eq split: sum.splits)
qed

lemma sendMessage_redetail [simp]: "sendMessage r t (redetail f w) = redetail f (sendMessage r t w)"
  by (simp add: sendMessage_def)

lemma handleAddCommand_redetail:
  "handleAddCommand lc message (redetail f w) = redetail f (handleAddCommand lc message w)"
proof (cases "parseKeyValue lc (extractCommandPayload lc (messageText message) (COMMANDS ADD))")
  case None
  then show ?thesis by (simp add: handleAddCommand_def)
next
  case (Some pair)
  obtain r w1 where a: "addValueToKey lc (key pair) (val pair) (sender message) w = (r, w1)"
    by (cases "addValueToKey lc (key pair) (val pair) (sender message) w")
  then have "addValueToKey lc (key pair) (val pair) (sender message) (redetail f w) = (r, redetail f w1)"
    by (simp add: addValueToKey_redetail)
  with Some a show ?thesis by (simp add: handleAddCommand_def)
qed

lemma INVALID_ADD_FORMAT_nonblank: "trim INVALID_ADD_FORMAT \<noteq> []"
  by (rule nonblank [of "0x274C"]) (simp_all add: INVALID_ADD_FORMAT_def)

lemma outbox_addValueToKey [simp]: "outbox (snd (addValueToKey lc k v user w)) = outbox w"
  by (cases "nextFault (advance w)"; cases "nextFault (advance (advance w))")
     (simp_all add: addValueToKey_eq saveValuesForKey_eq)

lemma addValueToKey_read_fault:
  assumes "isValidKey lc k" and "isValidValue lc v" and "nextFault w = Some e"
    and "nextFault (advance w) = None" and "nextFault (advance (advance w)) = None"
  shows "fst (addValueToKey lc k v user w) = Added"
  using assms
  by (simp add: addValueToKey_eq saveValuesForKey_eq existingValues_def hasValue_def Added_def)

lemma handleAddCommand_reply:
  assumes "parseKeyValue lc (extractCommandPayload lc (messageText message) (COMMANDS ADD)) = Some pair"
  shows "outbox (handleAddCommand lc message w) =
           outbox w @
             [(room message,
               if added (fst (addValueToKey lc (key pair) (val pair) (sender message) w))
               then VALUE_ADDED (key pair) (val pair)
               else if reason (fst (addValueToKey lc (key pair) (val pair) (sender message) w))
                         = Some duplicate
               then DUPLICATE_VALUE (key pair)
               else SAVE_ERROR)]"
proof -
  obtain r w1 where a: "addValueToKey lc (key pair) (val pair) (sender message) w = (r, w1)"
    by (cases "addValueToKey lc (key pair) (val pair) (sender message) w")
  have "outbox w1 = outbox w"
    using outbox_addValueToKey [of lc "key pair" "val pair" "sender message" w] by (simp add: a)
  with handleAddCommand_eq [OF assms a] show ?thesis by (simp add: a)
qed

lemma handleAddCommand_malformed:
  assumes "parseKeyValue lc (extractCommandPayload lc (messageText message) (COMMANDS ADD)) = None"
  shows "handleAddCommand lc message w = w\<lparr>outbox := outbox w @ [(room message, INVALID_ADD_FORMAT)]\<rparr>"
  using assms by (simp add: handleAddCommand_def sendMessage_nonblank INVALID_ADD_FORMAT_nonblank)

lemma executePostMessageSent_no_fault:
  "shouldProcessMessage message w = Inr True \<Longrightarrow> fst (executePostMessageSent lc message w) = None"
  by (simp add: executePostMessageSent_def Let_def split: option.splits)

section \<open>Command classification\<close>

text \<open>
  C3. \<open>getCommandType\<close> returns command \<open>c\<close> exactly when the trimmed text is \<open>!\<close>, the
  word of \<open>c\<close> and a rest that is empty or begins with a white space character. The
  result is the first of add, multi-add, remove, details, help that fits, and none when
  no word fits; a message that passed the entry guard and is no command is handed to the
  key search with its whole trimmed text. \<open>!addendum\<close> is no command, \<open>!add key:value\<close>
  is the command add with payload \<open>key:value\<close> (for every lower-casing function
  with the property \<open>lowerCaseLike\<close>; nothing else in the statement depends on it).
\<close>

theorem getCommandType_classification:
  "(getCommandType text = Some c \<longleftrightarrow>
      (\<exists>rest. trim text = js ''!'' @ COMMANDS c @ rest \<and> (rest = [] \<or> isWhiteSpace (hd rest)))) \<and>
   getCommandType text =
     find (\<lambda>c. \<exists>rest. trim text = js ''!'' @ COMMANDS c @ rest \<and> (rest = [] \<or> isWhiteSpace (hd rest)))
       [ADD, MULTI_ADD, REMOVE, DETAILS, HELP] \<and>
   (getCommandType text = None \<longleftrightarrow>
      \<not> (\<exists>c rest. trim text = js ''!'' @ COMMANDS c @ rest \<and> (rest = [] \<or> isWhiteSpace (hd rest)))) \<and>
   (shouldProcessMessage message w = Inr True \<and> getCommandType (messageText message) = None \<longrightarrow>
      executePostMessageSent lc message w =
        (None, handleKeySearch lc (messageText message) (room message) w)) \<and>
   getCommandType (js ''!addendum'') = None \<and>
   getCommandType (js ''!add key:value'') = Some ADD \<and>
   (lowerCaseLike lc \<longrightarrow>
      extractCommandPayload lc (js ''!add key:value'') (COMMANDS ADD) = js ''key:value'')"
proof -
  have m: "\<And>c. matchesCommand text (COMMANDS c) \<longleftrightarrow>
      (\<exists>rest. trim text = js ''!'' @ COMMANDS c @ rest \<and> (rest = [] \<or> isWhiteSpace (hd rest)))"
    unfolding matchesCommand_iff COMMAND_PREFIX_def ..
  have 1: "getCommandType text = Some c \<longleftrightarrow>
      (\<exists>rest. trim text = js ''!'' @ COMMANDS c @ rest \<and> (rest = [] \<or> isWhiteSpace (hd rest)))"
    unfolding getCommandType_Some_iff m ..
  have 2: "getCommandType text =
     find (\<lambda>c. \<exists>rest. trim text = js ''!'' @ COMMANDS c @ rest \<and> (rest = [] \<or> isWhiteSpace (hd rest)))
       [ADD, MULTI_ADD, REMOVE, DETAILS, HELP]"
    unfolding getCommandType_find m ..
  have 3: "getCommandType text = None \<longleftrightarrow>
      \<not> (\<exists>c rest. trim text = js ''!'' @ COMMANDS c @ rest \<and> (rest = [] \<or> isWhiteSpace (hd rest)))"
    unfolding getCommandType_None_iff m by blast
  have 4: "shouldProcessMessage message w = Inr True \<and> getCommandType (messageText message) = None \<longrightarrow>
      executePostMessageSent lc message w =
        (None, handleKeySearch lc (messageText message) (room message) w)"
    using executePostMessageSent_search by blast
  have 5: "getCommandType (js ''!addendum'') = None"
    by (simp add: getCommandType_def matchesCommand_def isCommand_def Let_def eval_string)
  have 6: "getCommandType (js ''!add key:value'') = Some ADD"
    by (simp add: getCommandType_def matchesCommand_def isCommand_def Let_def eval_string)
  have 7: "lowerCaseLike lc \<longrightarrow>
      extractCommandPayload lc (js ''!add key:value'') (COMMANDS ADD) = js ''key:value''"
  proof
    assume lc: "lowerCaseLike lc"
    have t: "trim (js ''!add key:value'') = COMMAND_PREFIX @ COMMANDS ADD @ js '' key:value''"
      "trim (js '' key:value'') = js ''key:value''"
      by (simp_all add: eval_string)
    from extractCommandPayload_spelling [OF lc t(1)]
    show "extractCommandPayload lc (js ''!add key:value'') (COMMANDS ADD) = js ''key:value''"
      by (simp add: t(2))
  qed
  show ?thesis
    by (rule conjI [OF 1 conjI [OF 2 conjI [OF 3 conjI [OF 4 conjI [OF 5 conjI [OF 6 7]]]]]])
qed

theorem getCommandType_classification_witness:
  "getCommandType (js '' !help '') = Some HELP \<and>
   shouldProcessMessage (says (js ''api'')) freshWorld = Inr True \<and>
   getCommandType (messageText (says (js ''api''))) = None \<and>
   executePostMessageSent asciiLowerCase (says (js ''api'')) freshWorld =
     (None, handleKeySearch asciiLowerCase (js ''api'') directRoom freshWorld) \<and>
   lowerCaseLike asciiLowerCase \<and>
   extractCommandPayload asciiLowerCase (js ''!add key:value'') (COMMANDS ADD) = js ''key:value''"
proof -
  have a: "\<exists>rest. trim (js '' !help '') = js ''!'' @ COMMANDS HELP @ rest \<and>
      (rest = [] \<or> isWhiteSpace (hd rest))"
    by (simp add: eval_string)
  with getCommandType_classification [of "js '' !help ''" HELP]
  have 1: "getCommandType (js '' !help '') = Some HELP" by blast
  have t: "trim (js ''api'') = js ''api''" by (simp add: eval_string)
  have 2: "shouldProcessMessage (says (js ''api'')) freshWorld = Inr True"
    by (rule shouldProcessMessage_says) (simp_all add: t freshWorld_def, simp add: js_def)
  have 3: "getCommandType (messageText (says (js ''api''))) = None"
    by (simp add: getCommandType_def matchesCommand_def isCommand_def Let_def eval_string)
  from getCommandType_classification [of _ _ "says (js ''api'')" freshWorld asciiLowerCase] 2 3
  have "executePostMessageSent asciiLowerCase (says (js ''api'')) freshWorld =
     (None, handleKeySearch asciiLowerCase (messageText (says (js ''api''))) (room (says (js ''api''))) freshWorld)"
    by blast
  then have 4: "executePostMessageSent asciiLowerCase (says (js ''api'')) freshWorld =
     (None, handleKeySearch asciiLowerCase (js ''api'') directRoom freshWorld)"
    by (simp add: t) (simp add: says_def)
  from getCommandType_classification [of _ _ _ _ asciiLowerCase] lowerCaseLike_asciiLowerCase
  have 5: "extractCommandPayload asciiLowerCase (js ''!add key:value'') (COMMANDS ADD) = js ''key:value''"
    by blast
  from 1 2 3 4 5 lowerCaseLike_asciiLowerCase show ?thesis by blast
qed

section \<open>Idempotence of add\<close>




section \<open>No empty entry\<close>

text \<open>
  C2. No record with an empty value list is ever persisted: \<open>addValueToKey\<close>,
  \<open>removeValueForKey\<close> and \<open>removeKey\<close>, and with them the whole message handler, keep
  the invariant that every record of the store has at least one value, under every
  schedule of persistence faults. \<open>getEntryForKey\<close> never returns an empty list. When the only
  value of a key is removed, the record of the key is deleted, and the next
  \<open>getEntryForKey\<close> on the key returns null.
\<close>

theorem no_empty_entry_persisted:
  "(noEmptyEntry w \<longrightarrow>
      noEmptyEntry (snd (addValueToKey lc k v user w)) \<and>
      noEmptyEntry (snd (removeValueForKey lc k v w)) \<and>
      noEmptyEntry (snd (removeKey lc k w)) \<and>
      noEmptyEntry (snd (executePostMessageSent lc message w))) \<and>
   fst (getEntryForKey lc k w) \<noteq> Some [] \<and>
   (fst (getEntryForKey lc k w) = Some [item] \<and> removeValueForKey lc k v w = (True, w') \<longrightarrow>
      storedRecords (normalizeKey lc k) w' = [] \<and> fst (getEntryForKey lc k w') = None)"
proof -
  have 1: "noEmptyEntry w \<longrightarrow>
      noEmptyEntry (snd (addValueToKey lc k v user w)) \<and>
      noEmptyEntry (snd (removeValueForKey lc k v w)) \<and>
      noEmptyEntry (snd (removeKey lc k w)) \<and>
      noEmptyEntry (snd (executePostMessageSent lc message w))"
    using noEmptyEntry_addValueToKey noEmptyEntry_removeValueForKey noEmptyEntry_removeKey
      noEmptyEntry_executePostMessageSent by blast
  have 2: "fst (getEntryForKey lc k w) \<noteq> Some []"
    by (rule getEntryForKey_not_empty)
  have 3: "fst (getEntryForKey lc k w) = Some [item] \<and> removeValueForKey lc k v w = (True, w') \<longrightarrow>
      storedRecords (normalizeKey lc k) w' = [] \<and> fst (getEntryForKey lc k w') = None"
    using removeValueForKey_last getEntryForKey_absent by blast
  from 1 2 3 show ?thesis by blast
qed

theorem no_empty_entry_persisted_witness:
  "noEmptyEntry apiWorld \<and>
   noEmptyEntry (snd (addValueToKey asciiLowerCase (js ''API'') (js '' rest '') alice apiWorld)) \<and>
   fst (getEntryForKey asciiLowerCase (js ''API'') apiWorld) = Some [restValue] \<and>
   removeValueForKey asciiLowerCase (js ''API'') (js '' rest '') apiWorld = (True, apiWorld\<lparr>store := []\<rparr>) \<and>
   storedRecords (normalizeKey asciiLowerCase (js ''API'')) (apiWorld\<lparr>store := []\<rparr>) = [] \<and>
   fst (getEntryForKey asciiLowerCase (js ''API'') (apiWorld\<lparr>store := []\<rparr>)) = None"
proof -
  have 1: "noEmptyEntry apiWorld"
    by (simp add: noEmptyEntry_def apiWorld_fields)
  have 2: "fst (getEntryForKey asciiLowerCase (js ''API'') apiWorld) = Some [restValue]"
    by (simp add: getEntryForKey_eq isValid_API apiWorld_stored)
  have k: "keepOthers asciiLowerCase (js '' rest '') [restValue] = []"
    by (simp add: keepOthers_def restValue_def normalizeValue_def eval_string)
  have 3: "removeValueForKey asciiLowerCase (js ''API'') (js '' rest '') apiWorld = (True, apiWorld\<lparr>store := []\<rparr>)"
    by (simp add: removeValueForKey_eq isValid_API apiWorld_stored k removeByAssociation_eq)
       (simp add: apiWorld_fields)
  from no_empty_entry_persisted [of apiWorld asciiLowerCase "js ''API''" "js '' rest ''" alice _ restValue
      "apiWorld\<lparr>store := []\<rparr>"] 1 2 3
  show ?thesis by blast
qed

section \<open>Persistence faults during add\<close>

text \<open>
  C7, as the code has it, for a valid key and value and every lower-casing function.
  When a persistence write raises during \<open>addValueToKey\<close>, that is \<open>removeByAssociation\<close>
  or, after it, \<open>createWithAssociation\<close> inside \<open>saveValuesForKey\<close>, the result is Error
  (\<open>added = false\<close>, reason \<open>error\<close>). When the read raises and the two writes succeed,
  the result is Added: \<open>getEntryForKey\<close> catches the fault and returns null, and the add
  goes on as for a key without entry. Under every schedule of faults the reply of
  \<open>!add\<close> is the success, the duplicate or the save-error text, chosen by the result
  alone (the save-error text for Error), and it is the same whatever detail the faults
  carry; and for an \<open>!add\<close> past the entry guard \<open>executePostMessageSent\<close> runs
  \<open>handleAddCommand\<close> and returns without a fault.
\<close>

theorem add_persistence_faults:
  assumes "isValidKey lc k" and "isValidValue lc v"
  shows
    "(\<not> hasValue lc v (existingValues lc k w) \<and>
      (nextFault (advance w) = Some (Fault detail) \<or>
       (nextFault (advance w) = None \<and> nextFault (advance (advance w)) = Some (Fault detail))) \<longrightarrow>
        fst (addValueToKey lc k v user w) = Error) \<and>
     (nextFault w = Some (Fault detail) \<and> nextFault (advance w) = None \<and>
      nextFault (advance (advance w)) = None \<longrightarrow>
        fst (addValueToKey lc k v user w) = Added) \<and>
     (parseKeyValue lc (extractCommandPayload lc (messageText message) (COMMANDS ADD))
        = Some \<lparr>key = k, val = v\<rparr> \<and> sender message = user \<longrightarrow>
        outbox (handleAddCommand lc message w) =
          outbox w @
            [(room message,
              if added (fst (addValueToKey lc k v user w)) then VALUE_ADDED k v
              else if reason (fst (addValueToKey lc k v user w)) = Some duplicate
              then DUPLICATE_VALUE k
              else SAVE_ERROR)] \<and>
        (fst (addValueToKey lc k v user w) = Error \<longrightarrow>
           outbox (handleAddCommand lc message w) = outbox w @ [(room message, SAVE_ERROR)]) \<and>
        (\<forall>f. outbox (handleAddCommand lc message (redetail f w)) =
              outbox (handleAddCommand lc message w)) \<and>
        (shouldProcessMessage message w = Inr True \<and>
         getCommandType (messageText message) = Some ADD \<longrightarrow>
           executePostMessageSent lc message w = (None, handleAddCommand lc message w)))"
proof -
  have 1: "\<not> hasValue lc v (existingValues lc k w) \<and>
      (nextFault (advance w) = Some (Fault detail) \<or>
       (nextFault (advance w) = None \<and> nextFault (advance (advance w)) = Some (Fault detail))) \<longrightarrow>
        fst (addValueToKey lc k v user w) = Error"
    using assms addValueToKey_write_fault [of lc k v w "Fault detail" user] by blast
  have 2: "nextFault w = Some (Fault detail) \<and> nextFault (advance w) = None \<and>
      nextFault (advance (advance w)) = None \<longrightarrow>
        fst (addValueToKey lc k v user w) = Added"
    using assms addValueToKey_read_fault [of lc k v w "Fault detail" user] by blast
  have 3: "parseKeyValue lc (extractCommandPayload lc (messageText message) (COMMANDS ADD))
        = Some \<lparr>key = k, val = v\<rparr> \<and> sender message = user \<longrightarrow>
        outbox (handleAddCommand lc message w) =
          outbox w @
            [(room message,
              if added (fst (addValueToKey lc k v user w)) then VALUE_ADDED k v
              else if reason (fst (addValueToKey lc k v user w)) = Some duplicate
              then DUPLICATE_VALUE k
              else SAVE_ERROR)] \<and>
        (fst (addValueToKey lc k v user w) = Error \<longrightarrow>
           outbox (handleAddCommand lc message w) = outbox w @ [(room message, SAVE_ERROR)]) \<and>
        (\<forall>f. outbox (handleAddCommand lc message (redetail f w)) =
              outbox (handleAddCommand lc message w)) \<and>
        (shouldProcessMessage message w = Inr True \<and>
         getCommandType (messageText message) = Some ADD \<longrightarrow>
           executePostMessageSent lc message w = (None, handleAddCommand lc message w))"
  proof
    assume p: "parseKeyValue lc (extractCommandPayload lc (messageText message) (COMMANDS ADD))
        = Some \<lparr>key = k, val = v\<rparr> \<and> sender message = user"
    from handleAddCommand_reply [OF conjunct1 [OF p], of w] p
    have a: "outbox (handleAddCommand lc message w) =
          outbox w @
            [(room message,
              if added (fst (addValueToKey lc k v user w)) then VALUE_ADDED k v
              else if reason (fst (addValueToKey lc k v user w)) = Some duplicate
              then DUPLICATE_VALUE k
              else SAVE_ERROR)]"
      by simp
    then have b: "fst (addValueToKey lc k v user w) = Error \<longrightarrow>
           outbox (handleAddCommand lc message w) = outbox w @ [(room message, SAVE_ERROR)]"
      by (simp add: Error_def)
    have c: "\<forall>f. outbox (handleAddCommand lc message (redetail f w)) =
              outbox (handleAddCommand lc message w)"
      by (simp add: handleAddCommand_redetail)
    have d: "shouldProcessMessage message w = Inr True \<and>
         getCommandType (messageText message) = Some ADD \<longrightarrow>
           executePostMessageSent lc message w = (None, handleAddCommand lc message w)"
      using executePostMessageSent_command [of message w ADD lc] by simp
    from a b c d
    show "outbox (handleAddCommand lc message w) =
          outbox w @
            [(room message,
              if added (fst (addValueToKey lc k v user w)) then VALUE_ADDED k v
              else if reason (fst (addValueToKey lc k v user w)) = Some duplicate
              then DUPLICATE_VALUE k
              else SAVE_ERROR)] \<and>
        (fst (addValueToKey lc k v user w) = Error \<longrightarrow>
           outbox (handleAddCommand lc message w) = outbox w @ [(room message, SAVE_ERROR)]) \<and>
        (\<forall>f. outbox (handleAddCommand lc message (redetail f w)) =
              outbox (handleAddCommand lc message w)) \<and>
        (shouldProcessMessage message w = Inr True \<and>
         getCommandType (messageText message) = Some ADD \<longrightarrow>
           executePostMessageSent lc message w = (None, handleAddCommand lc message w))"
      by (intro conjI)
  qed
  show ?thesis by (rule conjI [OF 1 conjI [OF 2 3]])
qed

theorem add_persistence_faults_witness:
  "isValidKey asciiLowerCase (js ''API'') \<and> isValidValue asciiLowerCase (js ''SOAP'') \<and>
   fst (addValueToKey asciiLowerCase (js ''API'') (js ''SOAP'') alice writeFaultWorld) = Error \<and>
   fst (addValueToKey asciiLowerCase (js ''API'') (js ''SOAP'') alice readFaultWorld) = Added \<and>
   outbox (handleAddCommand asciiLowerCase (says (js ''!add API:SOAP'')) writeFaultWorld) =
     [(directRoom, SAVE_ERROR)] \<and>
   outbox (handleAddCommand asciiLowerCase (says (js ''!add API:SOAP''))
            (redetail (\<lambda>e. Fault (js ''timeout'')) writeFaultWorld)) =
     [(directRoom, SAVE_ERROR)] \<and>
   executePostMessageSent asciiLowerCase (says (js ''!add API:SOAP'')) writeFaultWorld =
     (None, handleAddCommand asciiLowerCase (says (js ''!add API:SOAP'')) writeFaultWorld)"
proof -
  let ?m = "says (js ''!add API:SOAP'')"
  have h1: "\<not> hasValue asciiLowerCase (js ''SOAP'') (existingValues asciiLowerCase (js ''API'') writeFaultWorld) \<and>
      (nextFault (advance writeFaultWorld) = Some (Fault (js ''connection lost'')) \<or>
       (nextFault (advance writeFaultWorld) = None \<and>
        nextFault (advance (advance writeFaultWorld)) = Some (Fault (js ''connection lost''))))"
    by (simp add: writeFaultWorld_facts SOAP_facts)
  have h2: "nextFault readFaultWorld = Some (Fault (js ''connection lost'')) \<and>
      nextFault (advance readFaultWorld) = None \<and> nextFault (advance (advance readFaultWorld)) = None"
    by (simp add: readFaultWorld_facts)
  have h3: "parseKeyValue asciiLowerCase (extractCommandPayload asciiLowerCase (messageText ?m) (COMMANDS ADD))
        = Some \<lparr>key = js ''API'', val = js ''SOAP''\<rparr> \<and> sender ?m = alice"
    by (rule conjI [OF parse_add_API_SOAP]) (simp add: says_def)
  have h4: "shouldProcessMessage ?m writeFaultWorld = Inr True \<and>
      getCommandType (messageText ?m) = Some ADD"
    by (simp add: shouldProcessMessage_says getCommandType_def matchesCommand_def isCommand_def
        Let_def eval_string writeFaultWorld_def apiWorld_def freshWorld_def)
  have room: "room ?m = directRoom" by (simp add: says_def)
  note w = add_persistence_faults [OF isValid_API(1) SOAP_facts(1),
      of writeFaultWorld "js ''connection lost''" alice ?m]
  note r = add_persistence_faults [OF isValid_API(1) SOAP_facts(1),
      of readFaultWorld "js ''connection lost''" alice ?m]
  from w h1 have 1: "fst (addValueToKey asciiLowerCase (js ''API'') (js ''SOAP'') alice writeFaultWorld) = Error"
    by blast
  from r h2 have 2: "fst (addValueToKey asciiLowerCase (js ''API'') (js ''SOAP'') alice readFaultWorld) = Added"
    by blast
  from w h3 1 have 3: "outbox (handleAddCommand asciiLowerCase ?m writeFaultWorld) = [(directRoom, SAVE_ERROR)]"
    by (simp add: room writeFaultWorld_facts Error_def)
  from w h3 have "outbox (handleAddCommand asciiLowerCase ?m (redetail (\<lambda>e. Fault (js ''timeout'')) writeFaultWorld)) =
      outbox (handleAddCommand asciiLowerCase ?m writeFaultWorld)"
    by blast
  with 3 have 4: "outbox (handleAddCommand asciiLowerCase ?m (redetail (\<lambda>e. Fault (js ''timeout'')) writeFaultWorld)) =
      [(directRoom, SAVE_ERROR)]"
    by simp
  from w h3 h4 have 5: "executePostMessageSent asciiLowerCase ?m writeFaultWorld =
      (None, handleAddCommand asciiLowerCase ?m writeFaultWorld)"
    by blast
  from isValid_API(1) SOAP_facts(1) 1 2 3 4 5 show ?thesis by blast
qed

text \<open>
  The claim as stated, "any raising read or write makes the result Error", fails for the
  read: with the entry of \<open>API\<close> stored and a read that raises, the add of \<open>SOAP\<close>
  returns Added and replies with the success text.
\<close>

theorem add_read_fault_counterexample:
  "nextFault readFaultWorld = Some (Fault (js ''connection lost'')) \<and>
   addValueToKey asciiLowerCase (js ''API'') (js ''SOAP'') alice readFaultWorld =
     (Added, apiWorld\<lparr>store := [(js ''api'', \<lparr>entry_values = [soapValue]\<rparr>)], ticks := 2\<rparr>) \<and>
   fst (addValueToKey asciiLowerCase (js ''API'') (js ''SOAP'') alice readFaultWorld) \<noteq> Error \<and>
   outbox (handleAddCommand asciiLowerCase (says (js ''!add API:SOAP'')) readFaultWorld) =
     [(directRoom, VALUE_ADDED (js ''API'') (js ''SOAP''))]"
proof -
  have 1: "addValueToKey asciiLowerCase (js ''API'') (js ''SOAP'') alice readFaultWorld =
     (Added, apiWorld\<lparr>store := [(js ''api'', \<lparr>entry_values = [soapValue]\<rparr>)], ticks := 2\<rparr>)"
    by (simp add: addValueToKey_eq isValid_API SOAP_facts readFaultWorld_facts saveValuesForKey_eq
        Added_def)
       (simp add: apiWorld_fields soapValue_def)
  have 2: "fst (addValueToKey asciiLowerCase (js ''API'') (js ''SOAP'') alice readFaultWorld) \<noteq> Error"
    by (simp add: 1 Added_def Error_def)
  have "addValueToKey asciiLowerCase (key \<lparr>key = js ''API'', val = js ''SOAP''\<rparr>) (val \<lparr>key = js ''API'', val = js ''SOAP''\<rparr>)
          (sender (says (js ''!add API:SOAP''))) readFaultWorld =
     (Added, apiWorld\<lparr>store := [(js ''api'', \<lparr>entry_values = [soapValue]\<rparr>)], ticks := 2\<rparr>)"
    using 1 by (simp add: says_def)
  from handleAddCommand_eq [OF parse_add_API_SOAP this]
  have 3: "outbox (handleAddCommand asciiLowerCase (says (js ''!add API:SOAP'')) readFaultWorld) =
     [(directRoom, VALUE_ADDED (js ''API'') (js ''SOAP''))]"
    by (simp add: Added_def apiWorld_fields says_def)
  from readFaultWorld_facts(1) 1 2 3 show ?thesis by blast
qed

section \<open>Multi-add\<close>



section \<open>Entry guard\<close>

text \<open>
  C6. A message that is not in a direct room, or whose sender has the id of the app's own
  user, or whose text is absent or empty after trimming, leaves the whole state as it
  was: \<open>executePostMessageSent\<close> sends nothing and changes nothing in the store.
\<close>

theorem silent_ignore:
  assumes "room_type (room message) \<noteq> ROOM_TYPE_DIRECT \<or>
           (\<exists>self. appUser w = Inr (Some self) \<and> user_id (sender message) = user_id self) \<or>
           messageText message = []"
  shows "snd (executePostMessageSent lc message w) = w \<and>
         outbox (snd (executePostMessageSent lc message w)) = outbox w \<and>
         store (snd (executePostMessageSent lc message w)) = store w"
proof -
  have "shouldProcessMessage message w \<noteq> Inr True"
    using assms by (auto simp: shouldProcessMessage_def split: sum.splits option.splits)
  then have "snd (executePostMessageSent lc message w) = w"
    by (simp add: executePostMessageSent_def split: sum.splits bool.splits)
  then show ?thesis by simp
qed

theorem silent_ignore_witness:
  "snd (executePostMessageSent asciiLowerCase ((says (js ''api''))\<lparr>room := \<lparr>room_id = js ''general'', room_type = js ''c''\<rparr>\<rparr>)
         freshWorld) = freshWorld \<and>
   snd (executePostMessageSent asciiLowerCase ((says (js ''!add a:b''))\<lparr>sender := glossaryBot\<rparr>) freshWorld) = freshWorld \<and>
   snd (executePostMessageSent asciiLowerCase (says (js ''   '')) freshWorld) = freshWorld \<and>
   snd (executePostMessageSent asciiLowerCase ((says [])\<lparr>msg_text := None\<rparr>) freshWorld) = freshWorld"
proof -
  have 1: "room_type (room ((says (js ''api''))\<lparr>room := \<lparr>room_id = js ''general'', room_type = js ''c''\<rparr>\<rparr>))
            \<noteq> ROOM_TYPE_DIRECT"
    by (simp add: ROOM_TYPE_DIRECT_def js_def)
  have 2: "\<exists>self. appUser freshWorld = Inr (Some self) \<and>
             user_id (sender ((says (js ''!add a:b''))\<lparr>sender := glossaryBot\<rparr>)) = user_id self"
    by (simp add: freshWorld_def)
  have 3: "messageText (says (js ''   '')) = []"
    by (simp add: eval_string)
  have 4: "messageText ((says [])\<lparr>msg_text := None\<rparr>) = []"
    by (simp add: messageText_def)
  from silent_ignore [of "(says (js ''api''))\<lparr>room := \<lparr>room_id = js ''general'', room_type = js ''c''\<rparr>\<rparr>" freshWorld] 1
    silent_ignore [of "(says (js ''!add a:b''))\<lparr>sender := glossaryBot\<rparr>" freshWorld] 2
    silent_ignore [of "says (js ''   '')" freshWorld] 3
    silent_ignore [of "(says [])\<lparr>msg_text := None\<rparr>" freshWorld] 4
  show ?thesis by blast
qed

section \<open>Details round trip\<close>

text \<open>
  C8, as the code has it. After \<open>addValueToKey lc X Y\<close> by user \<open>U\<close> has returned Added, at
  the clock reading \<open>T\<close>, the message \<open>!details X:Y\<close> is the command details, and the
  guarded entry point hands it to \<open>handleDetailsCommand\<close>. When the read of the entry does
  not raise, the reply shows the key, the stored value (the trimmed \<open>Y\<close>), \<open>formatDate\<close>
  of \<open>T\<close> and the identity \<open>getUserEmail U\<close>; when the read raises, \<open>getEntryForKey\<close>
  returns null and the reply is the key-not-found template. The key is one that \<open>!add\<close>
  can produce (no colon in it). For every \<open>!details\<close> with a well-formed pair: without
  an entry for the key the reply is the key-not-found template, and with an entry that
  holds no value of the same normalized form it is the value-not-found template. This
  holds for every lower-casing function that is the ASCII one on ASCII text.
\<close>

theorem details_round_trip:
  assumes "lowerCaseLike lc"
    and "addValueToKey lc X Y U w = (Added, w1)"
    and "0x3A \<notin> set X"
    and "msg_text message = Some (js ''!details '' @ X @ js '':'' @ Y)"
  shows "getCommandType (messageText message) = Some DETAILS \<and>
         (shouldProcessMessage message w1 = Inr True \<longrightarrow>
            executePostMessageSent lc message w1 = (None, handleDetailsCommand lc message w1)) \<and>
         (nextFault w1 = None \<longrightarrow>
            handleDetailsCommand lc message w1 =
              (advance w1)\<lparr>outbox := outbox w1 @
                 [(room message,
                   LABEL_KEY @ trim X @ LABEL_VALUE @ trim Y
                   @ LABEL_ADDED @ formatDate (toLocaleString w1) (clock w (ticks w))
                   @ LABEL_AUTHOR @ getUserEmail U)]\<rparr>) \<and>
         (nextFault w1 \<noteq> None \<longrightarrow>
            outbox (handleDetailsCommand lc message w1) =
              outbox w1 @ [(room message, KEY_NOT_FOUND (trim X))]) \<and>
         (\<forall>m w' pair.
            parseKeyValue lc (extractCommandPayload lc (messageText m) (COMMANDS DETAILS)) = Some pair \<and>
            fst (getEntryForKey lc (key pair) w') = None \<longrightarrow>
            outbox (handleDetailsCommand lc m w') = outbox w' @ [(room m, KEY_NOT_FOUND (key pair))]) \<and>
         (\<forall>m w' pair entry.
            parseKeyValue lc (extractCommandPayload lc (messageText m) (COMMANDS DETAILS)) = Some pair \<and>
            fst (getEntryForKey lc (key pair) w') = Some entry \<and> \<not> hasValue lc (val pair) entry \<longrightarrow>
            outbox (handleDetailsCommand lc m w') =
              outbox w' @ [(room m, VALUE_NOT_FOUND (key pair) (val pair))])"
proof -
  let ?new = "\<lparr>gvalue = trim Y, createdAt = clock w (ticks w), createdBy = getUserEmail U\<rparr>"
  note lc = assms(1)
  from addValueToKey_added [OF assms(2)]
  have v: "isValidKey lc X" "isValidValue lc Y" and d: "\<not> hasValue lc Y (existingValues lc X w)"
    and s: "storedRecords (normalizeKey lc X) w1 = [\<lparr>entry_values = existingValues lc X w @ [?new]\<rparr>]"
    by (simp_all add: Added_def)
  have x: "trim X \<noteq> []" and y: "trim Y \<noteq> []"
    using v by (simp_all add: isValidKey_iff [OF lc] isValidValue_iff [OF lc])
  have m: "messageText message = trim (COMMAND_PREFIX @ COMMANDS DETAILS @ js '' '' @ X @ [0x3A] @ Y)"
    by (simp add: messageText_def assms(4) COMMAND_PREFIX_def COMMANDS.simps js_def)
  have 1: "getCommandType (messageText message) = Some DETAILS"
    unfolding getCommandType_Some_iff m using y by (rule command_text_matches)
  have 2: "shouldProcessMessage message w1 = Inr True \<longrightarrow>
            executePostMessageSent lc message w1 = (None, handleDetailsCommand lc message w1)"
    using 1 by (simp add: executePostMessageSent_def)
  have p: "parseKeyValue lc (extractCommandPayload lc (messageText message) (COMMANDS DETAILS))
      = Some \<lparr>key = trim X, val = trim Y\<rparr>"
    unfolding m using lc assms(3) x y by (rule parse_command_pair)
  have 3: "handleDetailsCommand lc message w1 =
           (advance w1)\<lparr>outbox := outbox w1 @
              [(room message,
                LABEL_KEY @ trim X @ LABEL_VALUE @ trim Y
                @ LABEL_ADDED @ formatDate (toLocaleString w1) (clock w (ticks w))
                @ LABEL_AUTHOR @ getUserEmail U)]\<rparr>" if n: "nextFault w1 = None"
  proof -
    have g: "getEntryForKey lc (key \<lparr>key = trim X, val = trim Y\<rparr>) w1 =
        (Some (existingValues lc X w @ [?new]), advance w1)"
      by (simp add: getEntryForKey_eq isValidKey_iff [OF lc] x n storedValues_def s)
    have f: "find (\<lambda>item. normalizeValue lc (gvalue item) =
          normalizeValue lc (val \<lparr>key = trim X, val = trim Y\<rparr>)) (existingValues lc X w @ [?new]) = Some ?new"
      by (simp add: find_append not_hasValue_find [OF d])
    show ?thesis using handleDetailsCommand_found [OF p g f] by simp
  qed
  have 4: "outbox (handleDetailsCommand lc message w1) =
             outbox w1 @ [(room message, KEY_NOT_FOUND (trim X))]" if n: "nextFault w1 \<noteq> None"
  proof -
    have "fst (getEntryForKey lc (key \<lparr>key = trim X, val = trim Y\<rparr>) w1) = None"
      using n by (auto simp: getEntryForKey_eq)
    from handleDetailsCommand_no_key [OF p this] show ?thesis by simp
  qed
  from 1 2 3 4 handleDetailsCommand_no_key handleDetailsCommand_no_value show ?thesis by blast
qed

theorem details_round_trip_witness:
  "lowerCaseLike asciiLowerCase \<and>
   addValueToKey asciiLowerCase (js ''API'') (js ''REST'') alice freshWorld = (Added, apiWorld) \<and>
   0x3A \<notin> set (js ''API'') \<and>
   msg_text (says (js ''!details API:REST'')) =
     Some (js ''!details '' @ js ''API'' @ js '':'' @ js ''REST'') \<and>
   getCommandType (messageText (says (js ''!details API:REST''))) = Some DETAILS \<and>
   shouldProcessMessage (says (js ''!details API:REST'')) apiWorld = Inr True \<and>
   nextFault apiWorld = None \<and>
   executePostMessageSent asciiLowerCase (says (js ''!details API:REST'')) apiWorld =
     (None,
      apiWorld\<lparr>outbox :=
        [(directRoom,
          LABEL_KEY @ js ''API'' @ LABEL_VALUE @ js ''REST'' @ LABEL_ADDED
          @ js ''ru-RU 2025-01-01T00:00:00.000Z'' @ LABEL_AUTHOR @ js ''alice@example.org'')]\<rparr>) \<and>
   addValueToKey asciiLowerCase (js ''API'') (js ''REST'') alice laterFaultWorld =
     (Added, readFaultWorld) \<and>
   nextFault readFaultWorld \<noteq> None \<and>
   outbox (handleDetailsCommand asciiLowerCase (says (js ''!details API:REST'')) readFaultWorld) =
     [(directRoom, KEY_NOT_FOUND (js ''API''))] \<and>
   outbox (handleDetailsCommand asciiLowerCase (says (js ''!details API:REST'')) freshWorld) =
     [(directRoom, KEY_NOT_FOUND (js ''API''))] \<and>
   outbox (handleDetailsCommand asciiLowerCase (says (js ''!details API:SOAP'')) apiWorld) =
     [(directRoom, VALUE_NOT_FOUND (js ''API'') (js ''SOAP''))]"
proof -
  note a = details_text(2) and b = details_text(1)
  have c: "nextFault apiWorld = None" by simp
  have c': "nextFault readFaultWorld \<noteq> None" by (simp add: readFaultWorld_facts)
  have room: "\<And>t. room (says t) = directRoom" by (simp add: says_def)
  have e1: "fst (getEntryForKey asciiLowerCase (key \<lparr>key = js ''API'', val = js ''REST''\<rparr>) freshWorld) = None"
    by (simp add: getEntryForKey_eq isValid_API world_facts)
       (simp add: storedValues_def storedRecords_def freshWorld_def)
  have e2: "fst (getEntryForKey asciiLowerCase (key \<lparr>key = js ''API'', val = js ''SOAP''\<rparr>) apiWorld) = Some [restValue]"
    by (simp add: getEntryForKey_eq isValid_API apiWorld_stored)
  have e3: "\<not> hasValue asciiLowerCase (val \<lparr>key = js ''API'', val = js ''SOAP''\<rparr>) [restValue]"
    by (simp add: SOAP_facts)
  have f: "formatDate sampleLocale (clock freshWorld (ticks freshWorld)) =
      js ''ru-RU 2025-01-01T00:00:00.000Z''"
    by (simp add: formatDate_def apiWorld_fields sampleLocale_def sampleClock_def freshWorld_def
        numberToString_digit js_def)
  have t: "trim (js ''API'') = js ''API''" "trim (js ''REST'') = js ''REST''"
    "getUserEmail alice = js ''alice@example.org''"
    by (simp_all add: eval_string SOAP_facts)
  have o: "outbox readFaultWorld = []"
    by (simp add: readFaultWorld_def apiWorld_fields)
  note d = details_round_trip [OF lowerCaseLike_asciiLowerCase add_API_REST a b]
  note d' = details_round_trip [OF lowerCaseLike_asciiLowerCase add_API_REST_later a b]
  from d have 1: "getCommandType (messageText (says (js ''!details API:REST''))) = Some DETAILS"
    by blast
  from d c have "handleDetailsCommand asciiLowerCase (says (js ''!details API:REST'')) apiWorld =
     apiWorld\<lparr>outbox :=
       [(directRoom,
         LABEL_KEY @ js ''API'' @ LABEL_VALUE @ js ''REST'' @ LABEL_ADDED
         @ js ''ru-RU 2025-01-01T00:00:00.000Z'' @ LABEL_AUTHOR @ js ''alice@example.org'')]\<rparr>"
    by (simp add: f t room apiWorld_fields)
  with d shouldProcess_details(1)
  have 2: "executePostMessageSent asciiLowerCase (says (js ''!details API:REST'')) apiWorld =
     (None,
      apiWorld\<lparr>outbox :=
        [(directRoom,
          LABEL_KEY @ js ''API'' @ LABEL_VALUE @ js ''REST'' @ LABEL_ADDED
          @ js ''ru-RU 2025-01-01T00:00:00.000Z'' @ LABEL_AUTHOR @ js ''alice@example.org'')]\<rparr>)"
    by simp
  from d' c'
  have 3: "outbox (handleDetailsCommand asciiLowerCase (says (js ''!details API:REST'')) readFaultWorld) =
     [(directRoom, KEY_NOT_FOUND (js ''API''))]"
    by (simp add: t room o)
  from d [THEN conjunct2, THEN conjunct2, THEN conjunct2, THEN conjunct2, THEN conjunct1, rule_format,
      of "says (js ''!details API:REST'')" "\<lparr>key = js ''API'', val = js ''REST''\<rparr>" freshWorld]
    parse_details(1) e1
  have 4: "outbox (handleDetailsCommand asciiLowerCase (says (js ''!details API:REST'')) freshWorld) =
     [(directRoom, KEY_NOT_FOUND (js ''API''))]"
    by (simp add: room world_facts)
  from d [THEN conjunct2, THEN conjunct2, THEN conjunct2, THEN conjunct2, THEN conjunct2, rule_format,
      of "says (js ''!details API:SOAP'')" "\<lparr>key = js ''API'', val = js ''SOAP''\<rparr>" apiWorld
        "[restValue]"]
    parse_details(2) e2 e3
  have 5: "outbox (handleDetailsCommand asciiLowerCase (says (js ''!details API:SOAP'')) apiWorld) =
     [(directRoom, VALUE_NOT_FOUND (js ''API'') (js ''SOAP''))]"
    by (simp add: room apiWorld_fields)
  from lowerCaseLike_asciiLowerCase add_API_REST a b 1 shouldProcess_details(1) c 2
    add_API_REST_later c' 3 4 5
  show ?thesis by blast
qed

text \<open>
  Without the condition on the read the claim fails: after the successful add, a
  \<open>!details\<close> whose read raises is answered with the key-not-found template, not with the
  details of the value.
\<close>

theorem details_round_trip_counterexample:
  "addValueToKey asciiLowerCase (js ''API'') (js ''REST'') alice laterFaultWorld =
     (Added, readFaultWorld) \<and>
   getCommandType (messageText (says (js ''!details API:REST''))) = Some DETAILS \<and>
   executePostMessageSent asciiLowerCase (says (js ''!details API:REST'')) readFaultWorld =
     (None, apiWorld\<lparr>outbox := [(directRoom, KEY_NOT_FOUND (js ''API''))]\<rparr>) \<and>
   KEY_NOT_FOUND (js ''API'') \<noteq>
     LABEL_KEY @ js ''API'' @ LABEL_VALUE @ js ''REST'' @ LABEL_ADDED
     @ js ''ru-RU 2025-01-01T00:00:00.000Z'' @ LABEL_AUTHOR @ js ''alice@example.org''"
proof -
  have g: "getEntryForKey asciiLowerCase (key \<lparr>key = js ''API'', val = js ''REST''\<rparr>) readFaultWorld =
      (None, apiWorld)"
    by (simp add: getEntryForKey_eq isValid_API readFaultWorld_facts)
  have h: "handleDetailsCommand asciiLowerCase (says (js ''!details API:REST'')) readFaultWorld =
      apiWorld\<lparr>outbox := [(directRoom, KEY_NOT_FOUND (js ''API''))]\<rparr>"
    using parse_details(1) g
    by (simp add: handleDetailsCommand_def sendMessage_nonblank KEY_NOT_FOUND_nonblank)
       (simp add: says_def apiWorld_fields)
  have 1: "executePostMessageSent asciiLowerCase (says (js ''!details API:REST'')) readFaultWorld =
     (None, apiWorld\<lparr>outbox := [(directRoom, KEY_NOT_FOUND (js ''API''))]\<rparr>)"
    using executePostMessageSent_command [OF shouldProcess_details(2) details_command, of asciiLowerCase] h
    by simp
  have 2: "KEY_NOT_FOUND (js ''API'') \<noteq>
     LABEL_KEY @ js ''API'' @ LABEL_VALUE @ js ''REST'' @ LABEL_ADDED
     @ js ''ru-RU 2025-01-01T00:00:00.000Z'' @ LABEL_AUTHOR @ js ''alice@example.org''"
    by (simp add: KEY_NOT_FOUND_def LABEL_KEY_def js_def)
  from add_API_REST_later details_command 1 2 show ?thesis by blast
qed

section \<open>Search fallback\<close>

text \<open>
  C9. A message that passed the entry guard and is no command is searched with its
  whole trimmed text as the key. The values found are the non-empty values of the stored
  entry, in the order of the stored list, and that is the order of insertion: when the
  state searched is the one an \<open>addValueToKey\<close> for the key has just left with Added,
  the values found are those the add had found before it, in their order, followed by
  the added value. One value: the reply is the singular template, key and value. Two or
  more: the plural template with the count and the numbered list, one line per value.
  None (no entry, no non-empty value, or a read that raised): the reply is the not-found
  text, which contains the command \<open>!add\<close>, the searched key, a colon, and a placeholder
  for the value in angle brackets. This holds for every lower-casing function that is
  the ASCII one on ASCII text.
\<close>

theorem key_search:
  assumes "lowerCaseLike lc"
    and "shouldProcessMessage message w = Inr True"
    and "getCommandType (messageText message) = None"
    and "k = messageText message"
    and "getValuesForKey lc k w = (found, w1)"
  shows "found = (case nextFault w of
                    Some e \<Rightarrow> None
                  | None \<Rightarrow> map_option (\<lambda>entry. filter (\<lambda>v. v \<noteq> []) (map gvalue entry))
                              (storedValues lc k w)) \<and>
         (\<forall>k' v u w0.
            addValueToKey lc k' v u w0 = (Added, w) \<and> normalizeKey lc k' = normalizeKey lc k \<and>
            nextFault w = None \<longrightarrow>
            found = Some (filter (\<lambda>x. x \<noteq> []) (map gvalue (existingValues lc k' w0)) @ [trim v])) \<and>
         (\<exists>reply.
            executePostMessageSent lc message w =
              (None, w1\<lparr>outbox := outbox w1 @ [(room message, reply)]\<rparr>) \<and>
            (\<forall>v. found = Some [v] \<longrightarrow> reply = LABEL_KEY @ k @ LABEL_VALUE @ v) \<and>
            (\<forall>vs. found = Some vs \<and> length vs \<ge> 2 \<longrightarrow>
               reply = LABEL_KEY @ k @ LABEL_VALUES (length vs)
                 @ joinWith [0x0A]
                     (map (\<lambda>i. numberToString (i + 1) @ js ''. '' @ vs ! i) [0..<length vs])) \<and>
            (found = None \<or> found = Some [] \<longrightarrow>
               reply = KEY_NOT_FOUND_SEARCH k \<and>
               (\<exists>pre post. reply = pre @ js ''!add '' @ k @ js '': <'' @ post @ js ''>'' @ [0x60])))"
proof -
  note lc = assms(1)
  have valid: "isValidKey lc k"
    unfolding assms(4) using lc assms(2) by (rule isValidKey_messageText)
  have 1: "found = (case nextFault w of
                    Some e \<Rightarrow> None
                  | None \<Rightarrow> map_option (\<lambda>entry. filter (\<lambda>v. v \<noteq> []) (map gvalue entry))
                              (storedValues lc k w))"
    using assms(5) valid by (simp add: getValuesForKey_eq)
  have o: "found = Some (filter (\<lambda>x. x \<noteq> []) (map gvalue (existingValues lc k' w0)) @ [trim v])"
    if a: "addValueToKey lc k' v u w0 = (Added, w)" and n: "normalizeKey lc k' = normalizeKey lc k"
      and f: "nextFault w = None" for k' v u w0
  proof -
    let ?new = "\<lparr>gvalue = trim v, createdAt = clock w0 (ticks w0), createdBy = getUserEmail u\<rparr>"
    from addValueToKey_added [OF a]
    have v: "isValidValue lc v"
      and s: "storedRecords (normalizeKey lc k') w = [\<lparr>entry_values = existingValues lc k' w0 @ [?new]\<rparr>]"
      by (simp_all add: Added_def)
    have t: "trim v \<noteq> []" using v by (simp add: isValidValue_iff [OF lc])
    have "storedValues lc k w = Some (existingValues lc k' w0 @ [?new])"
      using s by (simp add: storedValues_def n)
    with 1 f t show ?thesis by simp
  qed
  let ?reply = "case found of
                     None \<Rightarrow> KEY_NOT_FOUND_SEARCH k
                   | Some vs \<Rightarrow> if vs = [] then KEY_NOT_FOUND_SEARCH k
                               else formatValuesForDisplay k vs"
  have e: "executePostMessageSent lc message w =
              (None, w1\<lparr>outbox := outbox w1 @ [(room message, ?reply)]\<rparr>)"
    using executePostMessageSent_search [OF assms(2,3)] handleKeySearch_eq [OF valid assms(5)]
    by (simp add: assms(4))
  have a: "\<forall>v. found = Some [v] \<longrightarrow> ?reply = LABEL_KEY @ k @ LABEL_VALUE @ v"
    by (simp add: formatValuesForDisplay_one)
  have b: "\<forall>vs. found = Some vs \<and> length vs \<ge> 2 \<longrightarrow>
               ?reply = LABEL_KEY @ k @ LABEL_VALUES (length vs)
                 @ joinWith [0x0A]
                     (map (\<lambda>i. numberToString (i + 1) @ js ''. '' @ vs ! i) [0..<length vs])"
    by (auto simp: formatValuesForDisplay_many)
  have c: "found = None \<or> found = Some [] \<longrightarrow>
               ?reply = KEY_NOT_FOUND_SEARCH k \<and>
               (\<exists>pre post. ?reply = pre @ js ''!add '' @ k @ js '': <'' @ post @ js ''>'' @ [0x60])"
    using KEY_NOT_FOUND_SEARCH_syntax [of k] by auto
  from e a b c have "\<exists>reply.
            executePostMessageSent lc message w =
              (None, w1\<lparr>outbox := outbox w1 @ [(room message, reply)]\<rparr>) \<and>
            (\<forall>v. found = Some [v] \<longrightarrow> reply = LABEL_KEY @ k @ LABEL_VALUE @ v) \<and>
            (\<forall>vs. found = Some vs \<and> length vs \<ge> 2 \<longrightarrow>
               reply = LABEL_KEY @ k @ LABEL_VALUES (length vs)
                 @ joinWith [0x0A]
                     (map (\<lambda>i. numberToString (i + 1) @ js ''. '' @ vs ! i) [0..<length vs])) \<and>
            (found = None \<or> found = Some [] \<longrightarrow>
               reply = KEY_NOT_FOUND_SEARCH k \<and>
               (\<exists>pre post. reply = pre @ js ''!add '' @ k @ js '': <'' @ post @ js ''>'' @ [0x60]))"
    by (intro exI [of _ ?reply] conjI)
  with 1 o show ?thesis by blast
qed

theorem key_search_witness:
  "lowerCaseLike asciiLowerCase \<and>
   addValueToKey asciiLowerCase (js ''API'') (js ''REST'') alice freshWorld = (Added, apiWorld) \<and>
   executePostMessageSent asciiLowerCase (says (js ''API'')) apiWorld =
     (None, apiWorld\<lparr>outbox := [(directRoom, LABEL_KEY @ js ''API'' @ LABEL_VALUE @ js ''REST'')]\<rparr>) \<and>
   addValueToKey asciiLowerCase (js ''API'') (js ''SOAP'') alice apiWorld = (Added, restSoapWorld) \<and>
   normalizeKey asciiLowerCase (js ''API'') = normalizeKey asciiLowerCase (js ''api'') \<and>
   nextFault restSoapWorld = None \<and>
   getValuesForKey asciiLowerCase (js ''api'') restSoapWorld =
     (Some (filter (\<lambda>x. x \<noteq> []) (map gvalue (existingValues asciiLowerCase (js ''API'') apiWorld))
            @ [trim (js ''SOAP'')]),
      restSoapWorld) \<and>
   getValuesForKey asciiLowerCase (js ''api'') restSoapWorld =
     (Some [js ''REST'', js ''SOAP''], restSoapWorld) \<and>
   executePostMessageSent asciiLowerCase (says (js '' api '')) restSoapWorld =
     (None, restSoapWorld\<lparr>outbox :=
        [(directRoom, LABEL_KEY @ js ''api'' @ LABEL_VALUES 2 @ js ''1. REST'' @ [0x0A] @ js ''2. SOAP'')]\<rparr>) \<and>
   executePostMessageSent asciiLowerCase (says (js ''api'')) freshWorld =
     (None, freshWorld\<lparr>outbox := [(directRoom, KEY_NOT_FOUND_SEARCH (js ''api''))]\<rparr>)"
proof -
  note lc = lowerCaseLike_asciiLowerCase
  have room: "\<And>t. room (says t) = directRoom" by (simp add: says_def)
  have sp1: "shouldProcessMessage (says (js ''API'')) apiWorld = Inr True"
    by (rule shouldProcessMessage_says) (simp_all add: search_keys apiWorld_fields, simp add: js_def)
  have gc1: "getCommandType (messageText (says (js ''API''))) = None"
    by (simp add: search_keys)
  have k1: "js ''API'' = messageText (says (js ''API''))" by (simp add: search_keys)
  have gv1: "getValuesForKey asciiLowerCase (js ''API'') apiWorld = (Some [js ''REST''], apiWorld)"
    by (simp add: getValuesForKey_eq isValid_API apiWorld_stored restValue_def) (simp add: js_def)
  from key_search [OF lc sp1 gc1 k1 gv1]
  have 1: "executePostMessageSent asciiLowerCase (says (js ''API'')) apiWorld =
     (None, apiWorld\<lparr>outbox := [(directRoom, LABEL_KEY @ js ''API'' @ LABEL_VALUE @ js ''REST'')]\<rparr>)"
    by (auto simp: room apiWorld_fields)
  have sp2: "shouldProcessMessage (says (js '' api '')) restSoapWorld = Inr True"
    by (rule shouldProcessMessage_says) (simp_all add: search_keys world_facts, simp add: js_def)
  have gc2: "getCommandType (messageText (says (js '' api ''))) = None"
    by (simp add: search_keys)
  have k2: "js ''api'' = messageText (says (js '' api ''))" by (simp add: search_keys)
  have gv2: "getValuesForKey asciiLowerCase (js ''api'') restSoapWorld = (Some [js ''REST'', js ''SOAP''], restSoapWorld)"
    by (simp add: getValuesForKey_eq search_keys world_facts restValue_def soapValue_def)
       (simp add: js_def)
  have d: "numberToString (Suc 0) = js ''1''" "numberToString (Suc (Suc 0)) = js ''2''"
    "LABEL_VALUES (Suc (Suc 0)) = LABEL_VALUES 2"
    by (simp_all add: numberToString.simps js_def numeral_2_eq_2)
  have j: "js ''1'' @ js ''. '' @ js ''REST'' @ 10 # js ''2'' @ js ''. '' @ js ''SOAP'' =
      js ''1. REST'' @ [0x0A] @ js ''2. SOAP''"
    by (simp add: js_def)
  have n: "normalizeKey asciiLowerCase (js ''API'') = normalizeKey asciiLowerCase (js ''api'')"
    by (simp add: normalizeKey_def eval_string)
  have f: "nextFault restSoapWorld = None" by (simp add: world_facts)
  note s = key_search [OF lc sp2 gc2 k2 gv2]
  from s have 2: "executePostMessageSent asciiLowerCase (says (js '' api '')) restSoapWorld =
     (None, restSoapWorld\<lparr>outbox :=
        [(directRoom, LABEL_KEY @ js ''api'' @ LABEL_VALUES 2 @ js ''1. REST'' @ [0x0A] @ js ''2. SOAP'')]\<rparr>)"
    by (auto simp: room world_facts upt_rec d j)
  from s [THEN conjunct2, THEN conjunct1, rule_format, of "js ''API''" "js ''SOAP''" alice apiWorld]
    add_API_SOAP n f
  have "Some [js ''REST'', js ''SOAP''] =
      Some (filter (\<lambda>x. x \<noteq> []) (map gvalue (existingValues asciiLowerCase (js ''API'') apiWorld))
            @ [trim (js ''SOAP'')])"
    by blast
  with gv2 have 4: "getValuesForKey asciiLowerCase (js ''api'') restSoapWorld =
     (Some (filter (\<lambda>x. x \<noteq> []) (map gvalue (existingValues asciiLowerCase (js ''API'') apiWorld))
            @ [trim (js ''SOAP'')]),
      restSoapWorld)"
    by simp
  have sp3: "shouldProcessMessage (says (js ''api'')) freshWorld = Inr True"
    by (rule shouldProcessMessage_says) (simp_all add: search_keys world_facts, simp add: js_def)
  have gc3: "getCommandType (messageText (says (js ''api''))) = None"
    by (simp add: search_keys)
  have k3: "js ''api'' = messageText (says (js ''api''))" by (simp add: search_keys)
  have gv3: "getValuesForKey asciiLowerCase (js ''api'') freshWorld = (None, freshWorld)"
    by (simp add: getValuesForKey_eq search_keys world_facts)
  from key_search [OF lc sp3 gc3 k3 gv3]
  have 3: "executePostMessageSent asciiLowerCase (says (js ''api'')) freshWorld =
     (None, freshWorld\<lparr>outbox := [(directRoom, KEY_NOT_FOUND_SEARCH (js ''api''))]\<rparr>)"
    by (auto simp: room world_facts)
  from lc add_API_REST 1 add_API_SOAP n f 4 gv2 2 3 show ?thesis by blast
qed

section \<open>Case of the command word\<close>

text \<open>
  C10. Command words are matched with their case. When the trimmed text of a message is
  \<open>!\<close> followed by a spelling \<open>word\<close> that differs from a command word only in the case
  of its letters (the command words are ASCII, so these are the spellings whose ASCII
  lower case is the command word), \<open>getCommandType\<close> finds no command, although
  \<open>extractCommandPayload\<close> for that command would accept the text and return the trimmed
  rest, for every lower-casing function that is the ASCII one on ASCII text; the message,
  once past the entry guard, is searched as a key with its whole text, the \<open>!\<close> included.
\<close>

theorem command_words_case_sensitive:
  assumes "messageText message = js ''!'' @ word @ rest"
    and "asciiLowerCase word = COMMANDS c" and "word \<noteq> COMMANDS c"
    and "shouldProcessMessage message w = Inr True"
  shows "getCommandType (messageText message) = None \<and>
         (lowerCaseLike lc \<longrightarrow>
            extractCommandPayload lc (messageText message) (COMMANDS c) = trim rest) \<and>
         executePostMessageSent lc message w =
           (None, handleKeySearch lc (js ''!'' @ word @ rest) (room message) w)"
proof -
  have t: "trim (messageText message) = COMMAND_PREFIX @ word @ rest"
    by (subst messageText_trimmed) (simp add: assms(1) COMMAND_PREFIX_def)
  have a: "list_all isAscii word"
    by (rule isAscii_asciiLowerCase) (simp add: assms(2))
  have 1: "getCommandType (messageText message) = None"
    unfolding getCommandType_None_iff
    using spelling_not_matched [OF t assms(2) assms(3)] by blast
  have 2: "extractCommandPayload lc (messageText message) (COMMANDS c) = trim rest"
    if lc: "lowerCaseLike lc"
    using extractCommandPayload_spelling [OF lc t assms(2) a] .
  have 3: "executePostMessageSent lc message w =
           (None, handleKeySearch lc (js ''!'' @ word @ rest) (room message) w)"
    using executePostMessageSent_search [OF assms(4) 1] assms(1) by simp
  from 1 2 3 show ?thesis by blast
qed

theorem command_words_case_sensitive_witness:
  "lowerCaseLike asciiLowerCase \<and>
   getCommandType (messageText (says (js ''!Add k:v''))) = None \<and>
   extractCommandPayload asciiLowerCase (messageText (says (js ''!Add k:v''))) (COMMANDS ADD) = js ''k:v'' \<and>
   executePostMessageSent asciiLowerCase (says (js ''!Add k:v'')) freshWorld =
     (None, handleKeySearch asciiLowerCase (js ''!Add k:v'') directRoom freshWorld) \<and>
   getCommandType (messageText (says (js ''!HELP''))) = None"
proof -
  have a1: "messageText (says (js ''!Add k:v'')) = js ''!'' @ js ''Add'' @ js '' k:v''"
    by (simp add: eval_string)
  have a2: "asciiLowerCase (js ''Add'') = COMMANDS ADD" "js ''Add'' \<noteq> COMMANDS ADD"
    by (simp_all add: eval_string)
  have a3: "shouldProcessMessage (says (js ''!Add k:v'')) freshWorld = Inr True"
    by (rule shouldProcessMessage_says) (simp_all add: eval_string freshWorld_def)
  have b1: "messageText (says (js ''!HELP'')) = js ''!'' @ js ''HELP'' @ []"
    by (simp add: eval_string)
  have b2: "asciiLowerCase (js ''HELP'') = COMMANDS HELP" "js ''HELP'' \<noteq> COMMANDS HELP"
    by (simp_all add: eval_string)
  have b3: "shouldProcessMessage (says (js ''!HELP'')) freshWorld = Inr True"
    by (rule shouldProcessMessage_says) (simp_all add: eval_string freshWorld_def)
  have t: "trim (js '' k:v'') = js ''k:v''" "js ''!'' @ js ''Add'' @ js '' k:v'' = js ''!Add k:v''"
    "room (says (js ''!Add k:v'')) = directRoom"
    by (simp_all add: eval_string says_def)
  from command_words_case_sensitive [OF a1 a2 a3, of asciiLowerCase]
    command_words_case_sensitive [OF b1 b2 b3, of asciiLowerCase] lowerCaseLike_asciiLowerCase
  show ?thesis by (simp add: t)
qed

end
